theory Spec2Isabelle
  imports Complex_Main "HOL-Library.Char_ord" "HOL-Library.List_Lexorder"
begin

section \<open>Text primitives\<close>

text \<open>
  A JavaScript string is a sequence of UTF-16 code units. The model uses \<open>string\<close>
  (a list of 8-bit \<open>char\<close>), read as the code units 0 to 255 (Latin-1), so \<open>length\<close> is
  the \<open>.length\<close> of such a string. An absent (\<open>undefined\<close>) string field and the empty
  string are both falsy in every test the source makes, and both give an invalid
  \<open>Date\<close>; the model writes both as \<open>[]\<close>.
\<close>

abbreviation NL :: char where "NL \<equiv> CHR 0x0A"

definition truthy :: "string \<Rightarrow> bool" where
  "truthy s = (s \<noteq> [])"

text \<open>The characters of the class \<open>\s\<close> (white space and line terminators) below 256.\<close>

definition isSpace :: "char \<Rightarrow> bool" where
  "isSpace c = (c \<in> set [CHR 0x09, CHR 0x0A, CHR 0x0B, CHR 0x0C, CHR 0x0D, CHR 0x20, CHR 0xA0])"

text \<open>The line terminators below 256; \<open>.\<close> matches every other character.\<close>

definition isLineTerminator :: "char \<Rightarrow> bool" where
  "isLineTerminator c = (c = CHR 0x0A \<or> c = CHR 0x0D)"

definition notLineTerminator :: "char \<Rightarrow> bool" where
  "notLineTerminator c = (\<not> isLineTerminator c)"

text \<open>\<open>String.prototype.trim\<close>\<close>

definition trim :: "string \<Rightarrow> string" where
  "trim s = rev (dropWhile isSpace (rev (dropWhile isSpace s)))"

text \<open>\<open>String.prototype.toLowerCase\<close> on the code units below 256.\<close>

definition lowerChar :: "char \<Rightarrow> char" where
  "lowerChar c =
     (let n = (of_char c :: nat)
      in if (65 \<le> n \<and> n \<le> 90) \<or> (192 \<le> n \<and> n \<le> 222 \<and> n \<noteq> 215)
         then char_of (n + 32) else c)"

definition toLowerCase :: "string \<Rightarrow> string" where
  "toLowerCase s = map lowerChar s"

fun startsWith :: "string \<Rightarrow> string \<Rightarrow> bool" where
  "startsWith s [] = True"
| "startsWith [] (k # ks) = False"
| "startsWith (c # cs) (k # ks) = (c = k \<and> startsWith cs ks)"

text \<open>\<open>String.prototype.includes\<close>\<close>

fun includesStr :: "string \<Rightarrow> string \<Rightarrow> bool" where
  "includesStr [] k = (k = [])"
| "includesStr (c # cs) k = (startsWith (c # cs) k \<or> includesStr cs k)"

text \<open>\<open>s.split(sep)\<close> for a separator of one character.\<close>

fun splitChar :: "char \<Rightarrow> string \<Rightarrow> string list" where
  "splitChar sep [] = [[]]"
| "splitChar sep (c # cs) =
     (if c = sep then [] # splitChar sep cs
      else (case splitChar sep cs of [] \<Rightarrow> [[c]] | p # ps \<Rightarrow> (c # p) # ps))"

text \<open>\<open>parts.join(sep)\<close>\<close>

fun joinWith :: "string \<Rightarrow> string list \<Rightarrow> string" where
  "joinWith sep [] = []"
| "joinWith sep [p] = p"
| "joinWith sep (p # q # ps) = p @ sep @ joinWith sep (q # ps)"

text \<open>Decimal rendering of a non-negative integer inside a template literal.\<close>

definition digitChar :: "nat \<Rightarrow> char" where
  "digitChar d = char_of (48 + d)"

fun showNat :: "nat \<Rightarrow> string" where
  "showNat n = (if n < 10 then [digitChar n] else showNat (n div 10) @ [digitChar (n mod 10)])"

declare showNat.simps [simp del]

section \<open>The regular expressions of the source\<close>

text \<open>
  The source uses seven regular expressions, all sequences of single-character classes,
  bounded or unbounded repetitions of one class, the anchors \<open>^\<close> and \<open>$\<close> under the
  \<open>m\<close> flag, a one-character look-behind and a look-ahead. An \<open>atom\<close> is one such
  piece; a regular expression is a list of atoms.
\<close>

datatype atom =
    Cls "char \<Rightarrow> bool"
  | Greedy "char \<Rightarrow> bool" nat "nat option"
  | Lazy "char \<Rightarrow> bool" nat "nat option"
  | Bol
  | Eol
  | Behind "char \<Rightarrow> bool"
  | Ahead "(char \<Rightarrow> bool) list"

text \<open>The character before the position reached after consuming \<open>k\<close> characters of \<open>s\<close>.\<close>

definition prevAfter :: "char option \<Rightarrow> string \<Rightarrow> nat \<Rightarrow> char option" where
  "prevAfter prev s k = (case rev (take k s) of [] \<Rightarrow> prev | c # _ \<Rightarrow> Some c)"

definition atBol :: "char option \<Rightarrow> bool" where
  "atBol prev = (case prev of None \<Rightarrow> True | Some c \<Rightarrow> isLineTerminator c)"

definition atEol :: "string \<Rightarrow> bool" where
  "atEol s = (case s of [] \<Rightarrow> True | c # _ \<Rightarrow> isLineTerminator c)"

fun looks :: "(char \<Rightarrow> bool) list \<Rightarrow> string \<Rightarrow> bool" where
  "looks [] s = True"
| "looks (P # Ps) [] = False"
| "looks (P # Ps) (c # cs) = (P c \<and> looks Ps cs)"

text \<open>
  The numbers of characters an atom may consume at a position, in the order in which the
  backtracking matcher tries them: a greedy repetition tries the longest run first, a
  lazy one the shortest.
\<close>

definition repMax :: "(char \<Rightarrow> bool) \<Rightarrow> nat option \<Rightarrow> string \<Rightarrow> nat" where
  "repMax P hi s =
     (let n = length (takeWhile P s) in case hi of None \<Rightarrow> n | Some h \<Rightarrow> min h n)"

fun choices :: "atom \<Rightarrow> char option \<Rightarrow> string \<Rightarrow> nat list" where
  "choices (Cls P) prev s = (case s of [] \<Rightarrow> [] | c # _ \<Rightarrow> if P c then [1] else [])"
| "choices (Greedy P lo hi) prev s = rev [lo..<Suc (repMax P hi s)]"
| "choices (Lazy P lo hi) prev s = [lo..<Suc (repMax P hi s)]"
| "choices Bol prev s = (if atBol prev then [0] else [])"
| "choices Eol prev s = (if atEol s then [0] else [])"
| "choices (Behind P) prev s = (case prev of None \<Rightarrow> [] | Some c \<Rightarrow> if P c then [0] else [])"
| "choices (Ahead Ps) prev s = (if looks Ps s then [0] else [])"

fun firstSome :: "('a \<Rightarrow> 'b option) \<Rightarrow> 'a list \<Rightarrow> 'b option" where
  "firstSome f [] = None"
| "firstSome f (x # xs) = (case f x of Some y \<Rightarrow> Some y | None \<Rightarrow> firstSome f xs)"

text \<open>
  \<open>rmatch re prev s\<close> matches \<open>re\<close> at the start of \<open>s\<close>, where \<open>prev\<close> is the character
  before \<open>s\<close> in the whole input (\<open>None\<close> at its start). The result lists the number of
  characters each atom consumed in the first successful alternative, as backtracking
  finds it; \<open>None\<close> is no match at this position.
\<close>

primrec rmatch :: "atom list \<Rightarrow> char option \<Rightarrow> string \<Rightarrow> nat list option" where
  "rmatch [] prev s = Some []"
| "rmatch (a # as) prev s =
     firstSome (\<lambda>k. map_option ((#) k) (rmatch as (prevAfter prev s k) (drop k s)))
       (choices a prev s)"

text \<open>
  \<open>s.replace(re, r)\<close> for a regular expression with the \<open>g\<close> flag: every match found
  from left to right is replaced by the constant \<open>r\<close> (no replacement of the source
  contains \<open>$\<close>); after an empty match the search moves one character on.
\<close>

fun replaceFrom :: "atom list \<Rightarrow> string \<Rightarrow> char option \<Rightarrow> string \<Rightarrow> string" where
  "replaceFrom re r prev [] = (case rmatch re prev [] of None \<Rightarrow> [] | Some ks \<Rightarrow> r)"
| "replaceFrom re r prev (c # cs) =
     (case rmatch re prev (c # cs) of
        None \<Rightarrow> c # replaceFrom re r (Some c) cs
      | Some ks \<Rightarrow>
          (case sum_list ks of
             0 \<Rightarrow> r @ c # replaceFrom re r (Some c) cs
           | Suc n \<Rightarrow> r @ replaceFrom re r (prevAfter prev (c # cs) (Suc n)) (drop n cs)))"

definition replaceAll :: "atom list \<Rightarrow> string \<Rightarrow> string \<Rightarrow> string" where
  "replaceAll re r s = replaceFrom re r None s"

text \<open>
  \<open>s.split(re)\<close>: the search runs over the positions \<open>q\<close> before the end of the input;
  \<open>cur\<close> is the piece collected since the last split point \<open>p\<close>. A match that ends at
  \<open>p\<close> (an empty match right at the last split point) splits nothing and the search
  moves on; any other match closes the piece and restarts after the match. The empty
  input gives no piece when \<open>re\<close> matches it and one empty piece otherwise.
\<close>

function splitLoop :: "atom list \<Rightarrow> string \<Rightarrow> char option \<Rightarrow> string \<Rightarrow> string list" where
  "splitLoop re cur prev [] = [cur]"
| "splitLoop re cur prev (c # cs) =
     (case rmatch re prev (c # cs) of
        None \<Rightarrow> splitLoop re (cur @ [c]) (Some c) cs
      | Some ks \<Rightarrow>
          (case sum_list ks of
             0 \<Rightarrow> (if cur = [] then splitLoop re (cur @ [c]) (Some c) cs
                   else cur # splitLoop re [] prev (c # cs))
           | Suc n \<Rightarrow> cur # splitLoop re [] (prevAfter prev (c # cs) (Suc n)) (drop n cs)))"
  by pat_completeness auto
termination
  by (relation "measures [\<lambda>(re, cur, prev, s). length s, \<lambda>(re, cur, prev, s). length cur]")
     auto

definition splitRe :: "atom list \<Rightarrow> string \<Rightarrow> string list" where
  "splitRe re s =
     (if s = [] then (case rmatch re None [] of None \<Rightarrow> [[]] | Some ks \<Rightarrow> [])
      else splitLoop re [] None s)"

text \<open>
  The loop \<open>while ((match = re.exec(text)) !== null)\<close> for a regular expression with the
  \<open>g\<close> flag: the successive matches from left to right, each as the text from the start
  of the match together with the characters consumed per atom. The loop is used with one
  expression only, whose matches have four characters or more; on an empty match
  \<open>lastIndex\<close> would not move, and the model stops there.
\<close>

fun execAll :: "atom list \<Rightarrow> char option \<Rightarrow> string \<Rightarrow> (string \<times> nat list) list" where
  "execAll re prev [] = []"
| "execAll re prev (c # cs) =
     (case rmatch re prev (c # cs) of
        None \<Rightarrow> execAll re (Some c) cs
      | Some ks \<Rightarrow>
          (case sum_list ks of
             0 \<Rightarrow> []
           | Suc n \<Rightarrow> (c # cs, ks) # execAll re (prevAfter prev (c # cs) (Suc n)) (drop n cs)))"

text \<open>The text of capture group that is atom number \<open>i\<close> of a match.\<close>

definition captured :: "nat \<Rightarrow> string \<times> nat list \<Rightarrow> string" where
  "captured i m = (case m of (s, ks) \<Rightarrow> take (ks ! i) (drop (sum_list (take i ks)) s))"

text \<open>The seven expressions, in the order of the source.\<close>

definition reBlankLines :: "atom list" where
  \<comment> \<open>\<open>/\n\s*\n\s*\n/g\<close>\<close>
  "reBlankLines =
     [Cls (\<lambda>c. c = NL), Greedy isSpace 0 None, Cls (\<lambda>c. c = NL), Greedy isSpace 0 None,
      Cls (\<lambda>c. c = NL)]"

definition reSpeaker :: "atom list" where
  \<comment> \<open>\<open>/\[.*?\]:\s*/g\<close>\<close>
  "reSpeaker =
     [Cls (\<lambda>c. c = CHR ''[''), Lazy notLineTerminator 0 None, Cls (\<lambda>c. c = CHR '']''),
      Cls (\<lambda>c. c = CHR '':''), Greedy isSpace 0 None]"

definition reShortLine :: "atom list" where
  \<comment> \<open>\<open>/^.{1,15}$/gm\<close>\<close>
  "reShortLine = [Bol, Greedy notLineTerminator 1 (Some 15), Eol]"

definition reTerminators :: "atom list" where
  \<comment> \<open>\<open>/[.!?]+/\<close>\<close>
  "reTerminators = [Greedy (\<lambda>c. c = CHR ''.'' \<or> c = CHR ''!'' \<or> c = CHR ''?'') 1 None]"

definition reSentenceGap :: "atom list" where
  \<comment> \<open>\<open>/(?<=[.!?])\s+/\<close>\<close>
  "reSentenceGap =
     [Behind (\<lambda>c. c = CHR ''.'' \<or> c = CHR ''!'' \<or> c = CHR ''?''), Greedy isSpace 1 None]"

definition reHeadingAhead :: "atom list" where
  \<comment> \<open>\<open>/(?=##\s)/\<close>\<close>
  "reHeadingAhead = [Ahead [\<lambda>c. c = CHR ''#'', \<lambda>c. c = CHR ''#'', isSpace]]"

definition reHeadingLine :: "atom list" where
  \<comment> \<open>\<open>/^##\s+(.+)$/gm\<close>; the capture group is atom 4\<close>
  "reHeadingLine =
     [Bol, Cls (\<lambda>c. c = CHR ''#''), Cls (\<lambda>c. c = CHR ''#''), Greedy isSpace 1 None,
      Greedy notLineTerminator 1 None, Eol]"

section \<open>The environment\<close>

text \<open>
  What the source takes from outside the repository: the tokenizer of \<open>js-tiktoken\<close>
  (\<open>None\<close> when \<open>encode\<close> throws) and the built-in \<open>Date\<close>, whose renderings depend on
  the locale and time zone of the host. \<open>env_LocalTZA e t isUTC\<close> is the offset of the
  host's local time from UTC in milliseconds, at the UTC time value \<open>t\<close> when \<open>isUTC\<close>
  and at the local time value \<open>t\<close> otherwise, as ECMAScript names it.
\<close>

record env =
  env_encode :: "string \<Rightarrow> nat list option"
  env_toLocaleString :: "string \<Rightarrow> string"
  env_toDateString :: "string \<Rightarrow> string"
  env_getTime :: "string \<Rightarrow> int option"
  env_LocalTZA :: "int \<Rightarrow> bool \<Rightarrow> int"

text \<open>
  The time value of \<open>new Date(x)\<close> in milliseconds; \<open>None\<close> is \<open>NaN\<close>, the value of an
  invalid date, which \<open>new Date(undefined)\<close> and \<open>new Date('')\<close> always are.
\<close>

definition dateValue :: "env \<Rightarrow> string \<Rightarrow> int option" where
  "dateValue e x = (if x = [] then None else env_getTime e x)"

section \<open>TokenOptimizer.countTokens\<close>

text \<open>The argument of \<open>countTokens\<close>: a string, or any value that is not a string.\<close>

datatype text_arg = Text string | NotText

text \<open>\<open>Math.ceil(text.length / 4)\<close>\<close>

definition fallbackEstimate :: "string \<Rightarrow> nat" where
  "fallbackEstimate s = nat \<lceil>of_nat (length s) / (4 :: rat)\<rceil>"

fun countTokens :: "env \<Rightarrow> text_arg \<Rightarrow> nat" where
  "countTokens e NotText = 0"
| "countTokens e (Text s) =
     (if s = [] then 0
      else (case env_encode e s of Some toks \<Rightarrow> length toks | None \<Rightarrow> fallbackEstimate s))"

section \<open>Values and options\<close>

text \<open>
  The few JavaScript values that reach a parameter of varying type: the second and third
  parameters of \<open>processContentBySummarizeLevel\<close> and the second of \<open>lightSummarize\<close>.
\<close>

datatype jsval = JUndefined | JBool bool | JString string

fun falsy :: "jsval \<Rightarrow> bool" where
  "falsy JUndefined = True"
| "falsy (JBool b) = (\<not> b)"
| "falsy (JString s) = (s = [])"

fun ofBoolOpt :: "bool option \<Rightarrow> jsval" where
  "ofBoolOpt None = JUndefined"
| "ofBoolOpt (Some b) = JBool b"

text \<open>
  An options object; a field that the caller left out is \<open>None\<close> (\<open>undefined\<close>), which a
  destructuring default replaces. The fields of this and of every other record carry a
  prefix before the name the source gives them (\<open>opt_\<close>, \<open>ll_\<close>, \<open>md_\<close>, ...): a field
  is a constant of the theory, and the source uses names such as \<open>topics\<close>, \<open>content\<close>
  and \<open>tokenCount\<close> in several objects and for variables.
\<close>

record options =
  opt_maxTokens :: "int option"
  opt_includeTimestamps :: "bool option"
  opt_includeSpeakers :: "bool option"
  opt_chunkStrategy :: "string option"
  opt_summarizeLevel :: "string option"
  opt_prioritizeTopics :: "bool option"
  opt_summarize :: "bool option"

definition orDefault :: "'a option \<Rightarrow> 'a \<Rightarrow> 'a" where
  "orDefault v d = (case v of None \<Rightarrow> d | Some x \<Rightarrow> x)"

definition noOptions :: options where
  "noOptions =
     \<lparr>opt_maxTokens = None, opt_includeTimestamps = None, opt_includeSpeakers = None,
      opt_chunkStrategy = None, opt_summarizeLevel = None, opt_prioritizeTopics = None,
      opt_summarize = None\<rparr>"

text \<open>
  Token counts and lengths are natural numbers and \<open>maxTokens\<close> is an integer. The
  products with the decimal constants of the source (0.3, 0.7, 0.8, 0.85, 0.9, 0.95,
  0.98) are taken exactly, in the rationals; on integer operands of ordinary size the
  double-precision product is the exact one where that is an integer and is otherwise
  not within rounding distance of an integer, so that the comparisons, \<open>Math.floor\<close> and
  \<open>Math.ceil\<close> of the source give what the exact ones give.

  A number that may be \<open>NaN\<close> or \<open>-Infinity\<close>:
\<close>

datatype number = NaN | Num rat | NegInfinity

text \<open>
  \<open>Array.prototype.sort\<close> with a comparator is stable: an element that came later moves
  before an earlier one only if the comparator is negative on the pair, and a comparator
  result \<open>NaN\<close> is read as \<open>+0\<close>. For a consistent comparator that fixes the result,
  which insertion from the right computes. (Where a comparator is not consistent, the
  order JavaScript gives is implementation-defined.)
\<close>

definition cmpNeg :: "number \<Rightarrow> bool" where
  "cmpNeg v = (case v of NaN \<Rightarrow> False | Num d \<Rightarrow> d < 0 | NegInfinity \<Rightarrow> True)"

fun insertBy :: "('a \<Rightarrow> 'a \<Rightarrow> number) \<Rightarrow> 'a \<Rightarrow> 'a list \<Rightarrow> 'a list" where
  "insertBy cmp x [] = [x]"
| "insertBy cmp x (y # ys) =
     (if cmpNeg (cmp y x) then y # insertBy cmp x ys else x # y # ys)"

fun sortBy :: "('a \<Rightarrow> 'a \<Rightarrow> number) \<Rightarrow> 'a list \<Rightarrow> 'a list" where
  "sortBy cmp [] = []"
| "sortBy cmp (x # xs) = insertBy cmp x (sortBy cmp xs)"

text \<open>\<open>set.add(x)\<close> on a \<open>Set\<close>, kept as the list of its elements in insertion order.\<close>

definition setAdd :: "'a \<Rightarrow> 'a list \<Rightarrow> 'a list" where
  "setAdd x xs = (if x \<in> set xs then xs else xs @ [x])"

section \<open>The summarizer\<close>

definition lightSummarize :: "string \<Rightarrow> jsval \<Rightarrow> string" where
  "lightSummarize content includeSpeakers =
     (let processed = content;
          processed = replaceAll reBlankLines [NL, NL] processed;
          processed = (if falsy includeSpeakers then replaceAll reSpeaker [] processed
                       else processed);
          processed = replaceAll reShortLine [] processed
      in trim processed)"

definition containsAny :: "string \<Rightarrow> string list \<Rightarrow> bool" where
  "containsAny s keywords = list_ex (\<lambda>keyword. includesStr s keyword) keywords"

definition longestFirst :: "string \<Rightarrow> string \<Rightarrow> number" where
  \<comment> \<open>\<open>(a, b) => b.length - a.length\<close>\<close>
  "longestFirst a b = Num (of_nat (length b) - of_nat (length a))"

definition moderateSummarize :: "string \<Rightarrow> jsval \<Rightarrow> string" where
  "moderateSummarize content includeSpeakers =
     (let processed = lightSummarize content includeSpeakers;
          sentences = filter (\<lambda>s. length (trim s) > 20) (splitRe reTerminators processed);
          importantKeywords =
            [''decided'', ''important'', ''meeting'', ''project'', ''deadline'', ''goal'',
             ''problem'', ''solution'', ''action'', ''next'', ''follow'', ''complete'',
             ''urgent'', ''priority'', ''schedule'', ''appointment'', ''reminder''];
          keySentences =
            filter (\<lambda>sentence. containsAny (toLowerCase sentence) importantKeywords
                                \<or> length sentence > 50) sentences
      in if of_nat (length keySentences) < of_nat (length sentences) * (0.3 :: rat)
         then joinWith ''. '' (take (nat \<lceil>of_nat (length sentences) * (0.7 :: rat)\<rceil>)
                                  (sortBy longestFirst sentences)) @ ''.''
         else joinWith ''. '' keySentences @ ''.'')"

definition aggressiveSummarize :: "string \<Rightarrow> jsval \<Rightarrow> string" where
  "aggressiveSummarize content includeSpeakers =
     (let processed = moderateSummarize content includeSpeakers;
          sentences = filter (\<lambda>s. length (trim s) > 30) (splitRe reTerminators processed);
          highPriorityKeywords =
            [''decided'', ''concluded'', ''agreed'', ''action'', ''next steps'', ''deadline'',
             ''important'', ''urgent'', ''priority'', ''meeting'', ''appointment'', ''schedule''];
          criticalSentences =
            filter (\<lambda>sentence. containsAny (toLowerCase sentence) highPriorityKeywords)
              sentences
      in if length criticalSentences = 0
         then joinWith ''. '' (take (min 3 (length sentences))
                                  (sortBy longestFirst sentences)) @ ''.''
         else joinWith ''. '' criticalSentences @ ''.'')"

text \<open>
  The declaration is \<open>processContentBySummarizeLevel(content, level, includeSpeakers)\<close>;
  \<open>switch\<close> compares \<open>level\<close> with the three strings by strict equality.
\<close>

definition processContentBySummarizeLevel :: "string \<Rightarrow> jsval \<Rightarrow> jsval \<Rightarrow> string" where
  "processContentBySummarizeLevel content level includeSpeakers =
     (if \<not> truthy content then []
      else if level = JString ''high'' then aggressiveSummarize content includeSpeakers
      else if level = JString ''medium'' then moderateSummarize content includeSpeakers
      else lightSummarize content includeSpeakers)"

section \<open>Entries and extraction\<close>

datatype node = Node (speakerName: string) (children: "node list")

record lifelog =
  ll_title :: string
  ll_markdown :: string
  ll_content :: string
  ll_startTime :: string
  ll_endTime :: string
  ll_timestamp :: string
  ll_isStarred :: bool
  ll_contents :: "node list"

record metadata =
  md_totalEntries :: nat
  md_dateRange :: string
  md_speakers :: "string list"
  md_topics :: "string list"
  md_starredCount :: nat
  md_totalDuration :: number

record cleaned =
  cc_fullText :: string
  cc_metadata :: metadata

fun extractSpeakersFromContent :: "node list \<Rightarrow> string list \<Rightarrow> string list" where
  "extractSpeakersFromContent [] speakers = speakers"
| "extractSpeakersFromContent (Node name kids # rest) speakers =
     (let speakers = (if truthy name then setAdd name speakers else speakers);
          speakers = extractSpeakersFromContent kids speakers
      in extractSpeakersFromContent rest speakers)"

text \<open>\<open>TokenOptimizer.getDateRange(lifelogs)\<close>; the default \<open>sort()\<close> orders strings by code
  unit.\<close>

definition lifelogsDateRange :: "env \<Rightarrow> ('a lifelog_scheme) list \<Rightarrow> string" where
  "lifelogsDateRange e lifelogs =
     (if length lifelogs = 0 then ''No data''
      else let dates = sort (map (env_toDateString e)
                               (filter truthy (map ll_startTime lifelogs)))
           in if length dates = 0 then ''No dates''
              else if length dates = 1 then hd dates
              else hd dates @ '' - '' @ last dates)"

fun addNum :: "number \<Rightarrow> number \<Rightarrow> number" where
  "addNum (Num x) (Num y) = Num (x + y)"
| "addNum NaN b = NaN"
| "addNum a NaN = NaN"
| "addNum a b = NegInfinity"

text \<open>\<open>new Date(b) - new Date(a)\<close>\<close>

definition dateDiff :: "env \<Rightarrow> string \<Rightarrow> string \<Rightarrow> number" where
  "dateDiff e b a =
     (case (dateValue e b, dateValue e a) of
        (Some tb, Some ta) \<Rightarrow> Num (of_int (tb - ta))
      | _ \<Rightarrow> NaN)"

definition durationMinutes :: "env \<Rightarrow> string \<Rightarrow> string \<Rightarrow> number" where
  \<comment> \<open>\<open>(new Date(endTime) - new Date(startTime)) / (1000 * 60)\<close>\<close>
  "durationMinutes e st en =
     (case dateDiff e en st of Num d \<Rightarrow> Num (d / (1000 * 60)) | v \<Rightarrow> v)"

text \<open>One turn of the loop of \<open>extractAndCleanContent\<close> over the entries; the state is
  \<open>fullText\<close> and \<open>metadata\<close>.\<close>

definition extractEntry :: "env \<Rightarrow> options \<Rightarrow> cleaned \<Rightarrow> 'a lifelog_scheme \<Rightarrow> cleaned" where
  "extractEntry e opts st lifelog =
     (let md = cc_metadata st;
          entryText = [];
          entryText =
            (if opt_includeTimestamps opts = Some True \<and> truthy (ll_startTime lifelog)
             then entryText @ ''['' @ env_toLocaleString e (ll_startTime lifelog) @ ''] ''
             else entryText);
          entryText =
            (if truthy (ll_title lifelog) then entryText @ ''## '' @ ll_title lifelog @ [NL, NL]
             else entryText);
          md = (if truthy (ll_title lifelog) then md\<lparr>md_topics := md_topics md @ [ll_title lifelog]\<rparr>
                else md);
          entryText =
            (if truthy (ll_markdown lifelog)
             then entryText
                  @ processContentBySummarizeLevel (ll_markdown lifelog)
                      (ofBoolOpt (opt_includeSpeakers opts)) JUndefined
                  @ [NL, NL]
             else entryText);
          md = md\<lparr>md_speakers := extractSpeakersFromContent (ll_contents lifelog) (md_speakers md)\<rparr>;
          md = (if ll_isStarred lifelog then md\<lparr>md_starredCount := md_starredCount md + 1\<rparr> else md);
          md = (if truthy (ll_startTime lifelog) \<and> truthy (ll_endTime lifelog)
                then md\<lparr>md_totalDuration :=
                         addNum (md_totalDuration md)
                           (durationMinutes e (ll_startTime lifelog) (ll_endTime lifelog))\<rparr>
                else md)
      in \<lparr>cc_fullText = cc_fullText st @ entryText, cc_metadata = md\<rparr>)"

definition extractAndCleanContent :: "env \<Rightarrow> ('a lifelog_scheme) list \<Rightarrow> options \<Rightarrow> cleaned" where
  "extractAndCleanContent e lifelogs opts =
     (let metadata0 = \<lparr>md_totalEntries = length lifelogs,
                        md_dateRange = lifelogsDateRange e lifelogs,
                        md_speakers = [], md_topics = [], md_starredCount = 0,
                        md_totalDuration = Num 0\<rparr>;
          st = foldl (extractEntry e opts) \<lparr>cc_fullText = [], cc_metadata = metadata0\<rparr> lifelogs
      in \<lparr>cc_fullText = trim (cc_fullText st), cc_metadata = cc_metadata st\<rparr>)"

section \<open>Chunking\<close>

record chunk =
  ch_index :: nat
  ch_content :: string
  ch_tokenCount :: nat
  ch_type :: string
  ch_topics :: "string list option"

record chunked =
  cr_chunks :: "chunk list"
  cr_totalTokens :: nat

text \<open>The variables of the chunking loops.\<close>

record chunker =
  st_currentChunk :: string
  st_chunkIndex :: nat
  st_chunks :: "chunk list"

definition extractTopicsFromText :: "string \<Rightarrow> string list" where
  "extractTopicsFromText text = map (\<lambda>m. trim (captured 4 m)) (execAll reHeadingLine None text)"

text \<open>\<open>chunks.push({index: chunkIndex++, content: currentChunk.trim(), tokenCount:
  this.countTokens(currentChunk), type, topics})\<close>\<close>

definition pushCurrent :: "env \<Rightarrow> string \<Rightarrow> bool \<Rightarrow> chunker \<Rightarrow> chunker" where
  "pushCurrent e type withTopics st =
     st\<lparr>st_chunks := st_chunks st @
           [\<lparr>ch_index = st_chunkIndex st,
             ch_content = trim (st_currentChunk st),
             ch_tokenCount = countTokens e (Text (st_currentChunk st)),
             ch_type = type,
             ch_topics = (if withTopics then Some (extractTopicsFromText (st_currentChunk st))
                          else None)\<rparr>],
        st_chunkIndex := st_chunkIndex st + 1\<rparr>"

text \<open>\<open>chunks.reduce((sum, chunk) => sum + chunk.tokenCount, 0)\<close>\<close>

definition sumTokenCounts :: "chunk list \<Rightarrow> nat" where
  "sumTokenCounts chunks = foldl (\<lambda>sum chunk. sum + ch_tokenCount chunk) 0 chunks"

text \<open>\<open>Math.floor(maxTokens * 0.9)\<close>\<close>

definition chunkSizeOf :: "int \<Rightarrow> int" where
  "chunkSizeOf maxTokens = \<lfloor>of_int maxTokens * (0.9 :: rat)\<rfloor>"

definition fixedStep :: "env \<Rightarrow> int \<Rightarrow> chunker \<Rightarrow> string \<Rightarrow> chunker" where
  "fixedStep e chunkSize st sentence =
     (let testChunk = st_currentChunk st
                      @ (if truthy (st_currentChunk st) then '' '' else []) @ sentence;
          tokenCount = countTokens e (Text testChunk)
      in if int tokenCount \<le> chunkSize then st\<lparr>st_currentChunk := testChunk\<rparr>
         else (let st = (if truthy (st_currentChunk st) then pushCurrent e ''fixed'' False st
                         else st)
               in st\<lparr>st_currentChunk := sentence\<rparr>))"

text \<open>The final chunk: \<open>index: chunkIndex\<close>, without the increment.\<close>

definition finalChunks :: "env \<Rightarrow> string \<Rightarrow> bool \<Rightarrow> chunker \<Rightarrow> chunk list" where
  "finalChunks e type withTopics st =
     (if truthy (st_currentChunk st) then st_chunks (pushCurrent e type withTopics st)
      else st_chunks st)"

text \<open>\<open>fixedChunking\<close> reads the field \<open>fullText\<close> of its first argument only, which is the
  argument of the model.\<close>

definition fixedChunking :: "env \<Rightarrow> string \<Rightarrow> int \<Rightarrow> chunked" where
  "fixedChunking e fullText maxTokens =
     (let chunkSize = chunkSizeOf maxTokens;
          sentences = splitRe reSentenceGap fullText;
          st = foldl (fixedStep e chunkSize)
                 \<lparr>st_currentChunk = [], st_chunkIndex = 0, st_chunks = []\<rparr> sentences;
          chunks = finalChunks e ''fixed'' False st
      in \<lparr>cr_chunks = chunks, cr_totalTokens = sumTokenCounts chunks\<rparr>)"

text \<open>\<open>chunks.push({...subChunk, index: chunkIndex++, type: 'semantic-split'})\<close> for each
  sub-chunk.\<close>

definition pushSub :: "chunker \<Rightarrow> chunk \<Rightarrow> chunker" where
  "pushSub st subChunk =
     st\<lparr>st_chunks := st_chunks st @
           [subChunk\<lparr>ch_index := st_chunkIndex st, ch_type := ''semantic-split''\<rparr>],
        st_chunkIndex := st_chunkIndex st + 1\<rparr>"

definition semanticStep :: "env \<Rightarrow> int \<Rightarrow> int \<Rightarrow> chunker \<Rightarrow> string \<Rightarrow> chunker" where
  "semanticStep e maxTokens chunkSize st section' =
     (let testChunk = st_currentChunk st
                      @ (if truthy (st_currentChunk st) then [NL, NL] else []) @ section';
          tokenCount = countTokens e (Text testChunk)
      in if int tokenCount \<le> chunkSize then st\<lparr>st_currentChunk := testChunk\<rparr>
         else (let st = (if truthy (st_currentChunk st) then pushCurrent e ''semantic'' True st
                         else st)
               in if int (countTokens e (Text section')) > chunkSize
                  then (let subChunks = fixedChunking e section' maxTokens;
                            st = foldl pushSub st (cr_chunks subChunks)
                        in st\<lparr>st_currentChunk := []\<rparr>)
                  else st\<lparr>st_currentChunk := section'\<rparr>))"

definition semanticChunking :: "env \<Rightarrow> string \<Rightarrow> int \<Rightarrow> chunked" where
  "semanticChunking e fullText maxTokens =
     (let sections = splitRe reHeadingAhead fullText;
          chunkSize = chunkSizeOf maxTokens;
          st = foldl (semanticStep e maxTokens chunkSize)
                 \<lparr>st_currentChunk = [], st_chunkIndex = 0, st_chunks = []\<rparr> sections;
          chunks = finalChunks e ''semantic'' True st
      in \<lparr>cr_chunks = chunks, cr_totalTokens = sumTokenCounts chunks\<rparr>)"

text \<open>The third argument, \<open>options\<close>, is passed on to \<open>semanticChunking\<close>, which declares
  two parameters.\<close>

definition temporalChunking :: "env \<Rightarrow> string \<Rightarrow> int \<Rightarrow> options \<Rightarrow> chunked" where
  "temporalChunking e fullText maxTokens opts = semanticChunking e fullText maxTokens"

section \<open>optimizeForChatGPT\<close>

text \<open>The returned object; a field that the object lacks is \<open>None\<close>, as is
  \<open>chunks: null\<close>.\<close>

record opt_result =
  res_strategy :: string
  res_tokenCount :: "nat option"
  res_content :: "string option"
  res_originalTokens :: "nat option"
  res_optimizedTokens :: "nat option"
  res_compressionRatio :: "number option"
  res_chunks :: "chunk list option"
  res_metadata :: metadata

text \<open>\<open>(totalTokens - optimizedTokens) / totalTokens\<close>; \<open>0 / 0\<close> is \<open>NaN\<close> and a negative
  number over zero is \<open>-Infinity\<close>.\<close>

definition ratio :: "nat \<Rightarrow> nat \<Rightarrow> number" where
  "ratio totalTokens optimizedTokens =
     (if totalTokens = 0 then (if optimizedTokens = 0 then NaN else NegInfinity)
      else Num ((of_nat totalTokens - of_nat optimizedTokens) / of_nat totalTokens))"

text \<open>The object \<open>{ includeTimestamps, includeSpeakers }\<close> that \<open>optimizeForChatGPT\<close> builds
  for \<open>extractAndCleanContent\<close>, and \<open>createConsolidatedExport\<close> for
  \<open>formatLifelogEntry\<close>, after the defaults (\<open>true\<close> for both).\<close>

definition cleanOptions :: "options \<Rightarrow> options" where
  "cleanOptions opts =
     (let includeTimestamps = orDefault (opt_includeTimestamps opts) True;
          includeSpeakers = orDefault (opt_includeSpeakers opts) True
      in noOptions\<lparr>opt_includeTimestamps := Some includeTimestamps,
                      opt_includeSpeakers := Some includeSpeakers\<rparr>)"

definition optimizeForChatGPT :: "env \<Rightarrow> ('a lifelog_scheme) list \<Rightarrow> options \<Rightarrow> opt_result" where
  "optimizeForChatGPT e lifelogs opts =
     (let maxTokens = orDefault (opt_maxTokens opts) 8000;
          chunkStrategy = orDefault (opt_chunkStrategy opts) ''semantic'';
          cleanedContent = extractAndCleanContent e lifelogs (cleanOptions opts);
          totalTokens = countTokens e (Text (cc_fullText cleanedContent))
      in if int totalTokens \<le> maxTokens
         then \<lparr>res_strategy = ''complete'',
               res_tokenCount = Some totalTokens,
               res_content = Some (cc_fullText cleanedContent),
               res_originalTokens = None, res_optimizedTokens = None,
               res_compressionRatio = None,
               res_chunks = None,
               res_metadata = cc_metadata cleanedContent\<rparr>
         else (let optimizedResult =
                     (if chunkStrategy = ''semantic''
                      then semanticChunking e (cc_fullText cleanedContent) maxTokens
                      else if chunkStrategy = ''temporal''
                      then temporalChunking e (cc_fullText cleanedContent) maxTokens opts
                      else fixedChunking e (cc_fullText cleanedContent) maxTokens)
               in \<lparr>res_strategy = chunkStrategy,
                    res_tokenCount = None, res_content = None,
                    res_originalTokens = Some totalTokens,
                    res_optimizedTokens = Some (cr_totalTokens optimizedResult),
                    res_compressionRatio =
                      Some (ratio totalTokens (cr_totalTokens optimizedResult)),
                    res_chunks = Some (cr_chunks optimizedResult),
                    res_metadata = cc_metadata cleanedContent\<rparr>))"

section \<open>Priority grouping\<close>

text \<open>\<open>{ ...lifelog, topics, priority, wordCount }\<close>\<close>

record enriched = lifelog +
  en_topics :: "string list"
  en_priority :: string
  en_wordCount :: nat

record grouped =
  highPriority :: "enriched list"
  mediumPriority :: "enriched list"
  lowPriority :: "enriched list"

definition extractTextContent :: "'a lifelog_scheme \<Rightarrow> string" where
  "extractTextContent lifelog =
     (let content = [];
          content = (if truthy (ll_title lifelog) then content @ ll_title lifelog @ '' ''
                     else content);
          content = (if truthy (ll_markdown lifelog) then content @ ll_markdown lifelog @ '' ''
                     else content);
          content = (if truthy (ll_content lifelog) then content @ ll_content lifelog @ '' ''
                     else content)
      in trim content)"

definition containsKeywords :: "string \<Rightarrow> string list \<Rightarrow> bool" where
  "containsKeywords content keywords = list_ex (\<lambda>keyword. includesStr content keyword) keywords"

definition topicKeywords :: "(string \<times> string list) list" where
  "topicKeywords =
     [(''work'', [''work'', ''job'', ''office'', ''meeting'', ''project'', ''client'', ''business'']),
      (''personal'', [''family'', ''friend'', ''personal'', ''home'', ''weekend'']),
      (''health'', [''health'', ''doctor'', ''exercise'', ''gym'', ''medical'', ''wellness'']),
      (''technology'', [''computer'', ''software'', ''app'', ''website'', ''tech'', ''digital'']),
      (''travel'', [''travel'', ''trip'', ''flight'', ''hotel'', ''vacation'', ''visit'']),
      (''food'', [''food'', ''restaurant'', ''eat'', ''lunch'', ''dinner'', ''cook'']),
      (''entertainment'', [''movie'', ''music'', ''game'', ''show'', ''entertainment'', ''fun''])]"

definition extractTopics :: "string \<Rightarrow> string list" where
  "extractTopics content =
     map fst (filter (\<lambda>(topic, keywords). containsKeywords content keywords) topicKeywords)"

definition highImportanceKeywords :: "string list" where
  "highImportanceKeywords =
     [''meeting'', ''call'', ''interview'', ''presentation'', ''decision'', ''important'',
      ''urgent'', ''deadline'', ''project'', ''client'', ''boss'', ''manager'', ''team'',
      ''problem'', ''issue'', ''solution'', ''plan'', ''strategy'', ''goal'', ''target'']"

definition mediumImportanceKeywords :: "string list" where
  "mediumImportanceKeywords =
     [''discussion'', ''conversation'', ''email'', ''message'', ''update'', ''review'',
      ''feedback'', ''idea'', ''suggestion'', ''question'', ''answer'', ''explain'']"

definition enrich :: "lifelog \<Rightarrow> enriched" where
  "enrich lifelog =
     (let content = toLowerCase (extractTextContent lifelog);
          wordCount = length (splitChar CHR '' '' content);
          priority =
            (if wordCount > 50 \<or> containsKeywords content highImportanceKeywords then ''high''
             else if wordCount > 20 \<or> containsKeywords content mediumImportanceKeywords
             then ''medium''
             else ''low'');
          topics = extractTopics content
      in lifelog.extend lifelog
           (enriched.fields topics priority wordCount))"

definition sortByTime :: "env \<Rightarrow> 'a lifelog_scheme \<Rightarrow> 'a lifelog_scheme \<Rightarrow> number" where
  \<comment> \<open>\<open>(a, b) => new Date(a.timestamp) - new Date(b.timestamp)\<close>\<close>
  "sortByTime e a b = dateDiff e (ll_timestamp a) (ll_timestamp b)"

text \<open>One turn of the loop over the entries: the enriched entry is appended to the list of
  its band.\<close>

definition groupEntry :: "grouped \<Rightarrow> lifelog \<Rightarrow> grouped" where
  "groupEntry g lifelog =
     (let enrichedLifelog = enrich lifelog
      in if en_priority enrichedLifelog = ''high''
         then g\<lparr>highPriority := highPriority g @ [enrichedLifelog]\<rparr>
         else if en_priority enrichedLifelog = ''medium''
         then g\<lparr>mediumPriority := mediumPriority g @ [enrichedLifelog]\<rparr>
         else g\<lparr>lowPriority := lowPriority g @ [enrichedLifelog]\<rparr>)"

definition groupByTopicsAndImportance :: "env \<Rightarrow> lifelog list \<Rightarrow> grouped" where
  "groupByTopicsAndImportance e lifelogs =
     (let g = foldl groupEntry
                \<lparr>highPriority = [], mediumPriority = [], lowPriority = []\<rparr> lifelogs
      in \<lparr>highPriority = sortBy (sortByTime e) (highPriority g),
          mediumPriority = sortBy (sortByTime e) (mediumPriority g),
          lowPriority = sortBy (sortByTime e) (lowPriority g)\<rparr>)"

text \<open>\<open>Math.floor(n * 0.8)\<close> and \<open>Math.floor(n * 0.3)\<close> inside.\<close>

definition countProcessedEntries :: "grouped \<Rightarrow> nat" where
  "countProcessedEntries groupedContent =
     length (highPriority groupedContent)
     + nat \<lfloor>of_nat (length (mediumPriority groupedContent)) * (0.8 :: rat)\<rfloor>
     + nat \<lfloor>of_nat (length (lowPriority groupedContent)) * (0.3 :: rat)\<rfloor>"

section \<open>Consolidated export\<close>

definition formatLifelogEntry :: "env \<Rightarrow> 'a lifelog_scheme \<Rightarrow> options \<Rightarrow> string" where
  "formatLifelogEntry e lifelog opts =
     (let includeTimestamps = orDefault (opt_includeTimestamps opts) False;
          includeSpeakers = orDefault (opt_includeSpeakers opts) False;
          summarize = orDefault (opt_summarize opts) False;
          entryText = [];
          entryText =
            (if includeTimestamps \<and> truthy (ll_startTime lifelog)
             then entryText @ ''['' @ env_toLocaleString e (ll_startTime lifelog) @ ''] ''
             else entryText);
          entryText =
            (if truthy (ll_title lifelog) then entryText @ ''## '' @ ll_title lifelog @ [NL, NL]
             else entryText);
          entryText =
            (if truthy (ll_markdown lifelog)
             then entryText
                  @ (if summarize then lightSummarize (ll_markdown lifelog) (JBool includeSpeakers)
                     else ll_markdown lifelog)
                  @ [NL, NL]
             else entryText)
      in trim entryText)"

text \<open>The variables of \<open>createConsolidatedExport\<close>.\<close>

record exporter =
  ex_content :: string
  ex_totalTokens :: nat
  ex_topics :: "string list"

text \<open>
  The body of the three loops over the bands, which differ in the ceiling (\<open>limit\<close>, the
  fraction of \<open>maxTokens\<close>), in the options of \<open>formatLifelogEntry\<close> and in whether the
  topics of an entry are collected (\<open>item.topics\<close> is an array, which is truthy).
\<close>

definition addItem :: "env \<Rightarrow> int \<Rightarrow> rat \<Rightarrow> options \<Rightarrow> bool \<Rightarrow> exporter \<Rightarrow> enriched \<Rightarrow> exporter" where
  "addItem e maxTokens limit fmt collectTopics st item =
     (let itemContent = formatLifelogEntry e item fmt;
          itemTokens = countTokens e (Text itemContent)
      in if of_nat (ex_totalTokens st + itemTokens) \<le> of_int maxTokens * limit
         then st\<lparr>ex_content := ex_content st @ itemContent @ [NL, NL],
                 ex_totalTokens := ex_totalTokens st + itemTokens,
                 ex_topics := (if collectTopics then ex_topics st @ en_topics item
                               else ex_topics st)\<rparr>
         else st)"

definition footerText :: "nat \<Rightarrow> string" where
  "footerText remainingEntries =
     [NL] @ ''## Summary'' @ [NL, NL]
     @ ''Note: '' @ showNat remainingEntries
     @ '' additional entries were summarized due to token limits. ''
     @ ''These included routine activities and brief interactions.'' @ [NL, NL]"

record export_result =
  exp_content :: string
  exp_tokenCount :: nat
  exp_strategy :: string
  exp_topics :: "string list"
  exp_originalEntries :: nat

text \<open>The three sections of the document: the state after the loops over the bands.\<close>

definition exportSections :: "env \<Rightarrow> grouped \<Rightarrow> int \<Rightarrow> options \<Rightarrow> exporter" where
  "exportSections e groupedContent maxTokens fmt =
     (let st = \<lparr>ex_content = [], ex_totalTokens = 0, ex_topics = []\<rparr>;
          st = (if length (highPriority groupedContent) > 0
                then foldl (addItem e maxTokens 0.85 fmt True)
                       (st\<lparr>ex_content := ex_content st
                             @ ''## Key Activities & Important Conversations'' @ [NL, NL]\<rparr>)
                       (highPriority groupedContent)
                else st);
          st = (if length (mediumPriority groupedContent) > 0
                   \<and> of_nat (ex_totalTokens st) < of_int maxTokens * (0.95 :: rat)
                then foldl (addItem e maxTokens 0.95 fmt True)
                       (st\<lparr>ex_content := ex_content st
                             @ ''## Regular Activities & Conversations'' @ [NL, NL]\<rparr>)
                       (mediumPriority groupedContent)
                else st);
          st = (if length (lowPriority groupedContent) > 0
                   \<and> of_nat (ex_totalTokens st) < of_int maxTokens * (0.98 :: rat)
                then foldl (addItem e maxTokens 0.98 (fmt\<lparr>opt_summarize := Some True\<rparr>) False)
                       (st\<lparr>ex_content := ex_content st @ ''## Background Activities'' @ [NL, NL]\<rparr>)
                       (lowPriority groupedContent)
                else st)
      in st)"

definition createConsolidatedExport :: "env \<Rightarrow> lifelog list \<Rightarrow> options \<Rightarrow> export_result" where
  "createConsolidatedExport e lifelogs opts =
     (let maxTokens = orDefault (opt_maxTokens opts) 120000;
          prioritizeTopics = orDefault (opt_prioritizeTopics opts) True;
          groupedContent = groupByTopicsAndImportance e lifelogs;
          fmt = cleanOptions opts;
          st = exportSections e groupedContent maxTokens fmt;
          st = (if of_nat (ex_totalTokens st) \<ge> of_int maxTokens * (0.95 :: rat)
                then (let remainingEntries =
                            int (length lifelogs) - int (countProcessedEntries groupedContent)
                      in if remainingEntries > 0
                         then st\<lparr>ex_content := ex_content st @ footerText (nat remainingEntries)\<rparr>
                         else st)
                else st)
      in \<lparr>exp_content = ex_content st,
          exp_tokenCount = ex_totalTokens st,
          exp_strategy = (if int (ex_totalTokens st) \<le> maxTokens then ''consolidated''
                          else ''prioritized''),
          exp_topics = foldl (\<lambda>acc t. setAdd t acc) [] (ex_topics st),
          exp_originalEntries = length lifelogs\<rparr>)"

section \<open>DateUtils.getDateRange\<close>

text \<open>
  A \<open>Date\<close> is its time value, the milliseconds since the epoch. \<open>toISOString\<close> renders
  the UTC calendar date of a time value; the conversion from a day number to year, month
  and day is the proleptic Gregorian calendar that ECMAScript prescribes.
\<close>

definition msPerDay :: int where
  "msPerDay = 86400000"

definition civilFromDays :: "int \<Rightarrow> int \<times> int \<times> int" where
  "civilFromDays z0 =
     (let z = z0 + 719468;
          era = z div 146097;
          doe = z - era * 146097;
          yoe = (doe - doe div 1460 + doe div 36524 - doe div 146096) div 365;
          doy = doe - (365 * yoe + yoe div 4 - yoe div 100);
          mp = (5 * doy + 2) div 153;
          d = doy - (153 * mp + 2) div 5 + 1;
          m = (if mp < 10 then mp + 3 else mp - 9);
          y = yoe + era * 400 + (if m \<le> 2 then 1 else 0)
      in (y, m, d))"

definition daysFromCivil :: "int \<Rightarrow> int \<Rightarrow> int \<Rightarrow> int" where
  "daysFromCivil y0 m d =
     (let y = (if m \<le> 2 then y0 - 1 else y0);
          era = y div 400;
          yoe = y - era * 400;
          doy = (153 * (if m > 2 then m - 3 else m + 9) + 2) div 5 + d - 1;
          doe = yoe * 365 + yoe div 4 - yoe div 100 + doy
      in era * 146097 + doe - 719468)"

text \<open>A non-negative number in decimal, padded with zeros to \<open>w\<close> digits.\<close>

definition padNat :: "nat \<Rightarrow> nat \<Rightarrow> string" where
  "padNat w n = replicate (w - length (showNat n)) CHR ''0'' @ showNat n"

text \<open>\<open>date.toISOString().split('T')[0]\<close>: years outside 0 to 9999 are written with a sign
  and six digits.\<close>

definition isoDate :: "int \<Rightarrow> string" where
  "isoDate t =
     (case civilFromDays (t div msPerDay) of
        (y, m, d) \<Rightarrow>
          (if 0 \<le> y \<and> y \<le> 9999 then padNat 4 (nat y)
           else (if y < 0 then ''-'' else ''+'') @ padNat 6 (nat \<bar>y\<bar>))
          @ ''-'' @ padNat 2 (nat m) @ ''-'' @ padNat 2 (nat d))"

datatype error = StartAfterEnd

text \<open>
  \<open>currentDate.setDate(currentDate.getDate() + 1)\<close>: the local time of the time value,
  moved to the next day of the month at the same time of day, and taken back to UTC.
\<close>

definition setDateNext :: "env \<Rightarrow> int \<Rightarrow> int" where
  "setDateNext e t =
     (let localTime = t + env_LocalTZA e t True;
          newDate = localTime + msPerDay
      in newDate - env_LocalTZA e newDate False)"

text \<open>
  The loop \<open>while (currentDate <= end)\<close> with its variables \<open>currentDate\<close> and \<open>dates\<close>;
  \<open>None\<close> is a loop that does not end.
\<close>

partial_function (option) dateLoop :: "env \<Rightarrow> int \<Rightarrow> int \<Rightarrow> string list \<Rightarrow> string list option"
  where
  "dateLoop e currentDate end' dates =
     (if currentDate \<le> end'
      then dateLoop e (setDateNext e currentDate) end' (dates @ [isoDate currentDate])
      else Some dates)"

text \<open>
  The result is \<open>None\<close> when the loop does not end, \<open>Some (Inl StartAfterEnd)\<close> for the
  thrown error and \<open>Some (Inr dates)\<close> for the returned list. A comparison with an
  invalid date (\<open>NaN\<close>) is false: neither the error is thrown nor the loop entered.
\<close>

definition getDateRange :: "env \<Rightarrow> string \<Rightarrow> string \<Rightarrow> (error + string list) option" where
  "getDateRange e startDate endDate =
     (case (dateValue e startDate, dateValue e endDate) of
        (Some start, Some end') \<Rightarrow>
          (if start > end' then Some (Inl StartAfterEnd)
           else map_option Inr (dateLoop e start end' []))
      | _ \<Rightarrow> Some (Inr []))"

section \<open>A concrete environment\<close>

text \<open>
  For the examples: a tokenizer that always throws, so that every count is the fallback
  estimate of \<open>countTokens\<close>; date renderings that print the string they are given;
  \<open>Date\<close> parsing of the date-only form \<open>YYYY-MM-DD\<close>, which is UTC midnight of that
  day, with every other string taken as invalid; and UTC as the time zone of the host.
\<close>

definition isDigit :: "char \<Rightarrow> bool" where
  "isDigit c = (48 \<le> (of_char c :: nat) \<and> (of_char c :: nat) \<le> 57)"

definition digitsValue :: "string \<Rightarrow> int" where
  "digitsValue ds = foldl (\<lambda>acc c. 10 * acc + (int (of_char c) - 48)) 0 ds"

definition parseDateOnly :: "string \<Rightarrow> int option" where
  "parseDateOnly s =
     (if length s = 10 \<and> list_all isDigit (take 4 s) \<and> s ! 4 = CHR ''-''
         \<and> list_all isDigit (take 2 (drop 5 s)) \<and> s ! 7 = CHR ''-''
         \<and> list_all isDigit (drop 8 s)
      then (let t = daysFromCivil (digitsValue (take 4 s)) (digitsValue (take 2 (drop 5 s)))
                      (digitsValue (drop 8 s)) * msPerDay
            in if isoDate t = s then Some t else None)
      else None)"

definition fallbackEnv :: env where
  "fallbackEnv = \<lparr>env_encode = (\<lambda>s. None), env_toLocaleString = (\<lambda>s. s),
     env_toDateString = (\<lambda>s. s), env_getTime = parseDateOnly,
     env_LocalTZA = (\<lambda>t isUTC. 0)\<rparr>"

text \<open>The same on a host whose clock goes forward by an hour on 2024-03-10 at 07:00 UTC,
  from five to four hours behind UTC (as in New York); a local time is read with the
  earlier offset up to 03:00 of that day.\<close>

definition dstEnv :: env where
  "dstEnv = fallbackEnv\<lparr>env_LocalTZA :=
     (\<lambda>t isUTC. if t < (if isUTC then 1710054000000 else 1710039600000)
                 then - 18000000 else - 14400000)\<rparr>"

text \<open>The same with a tokenizer that succeeds, with one token for each character.\<close>

definition charEnv :: env where
  "charEnv = fallbackEnv\<lparr>env_encode := (\<lambda>s. Some (map of_char s))\<rparr>"

text \<open>The tokenizer of the source, \<open>js-tiktoken\<close>, is called as \<open>encode(text)\<close>,
  with no special token allowed, and then throws on a text that contains a special token
  such as \<open><|endoftext|>\<close>: \<open>countTokens\<close> takes its fallback on such a text. The
  environment below does this; on every other text it gives one token for each character.\<close>

definition specialTokenEnv :: env where
  "specialTokenEnv = fallbackEnv\<lparr>env_encode :=
     (\<lambda>s. if includesStr s ''<|endoftext|>'' then None else Some (map of_char s))\<rparr>"

text \<open>An entry with a title, a body and a start time, and nothing else.\<close>

definition entry :: "string \<Rightarrow> string \<Rightarrow> string \<Rightarrow> lifelog" where
  "entry t m st =
     \<lparr>ll_title = t, ll_markdown = m, ll_content = [], ll_startTime = st, ll_endTime = [],
      ll_timestamp = [], ll_isStarred = False, ll_contents = []\<rparr>"

section \<open>Notions used in the statements\<close>

text \<open>The chunks collected so far carry the indices 0, 1, 2, ... in list order, and
  \<open>chunkIndex\<close> is the next index.\<close>

definition indexed :: "chunk list \<Rightarrow> bool" where
  "indexed cs = (map ch_index cs = [0..<length cs])"

definition chunkerInv :: "chunker \<Rightarrow> bool" where
  "chunkerInv st = (indexed (st_chunks st) \<and> st_chunkIndex st = length (st_chunks st))"

text \<open>A text without its white space.\<close>

definition solid :: "string \<Rightarrow> string" where
  "solid s = filter (\<lambda>c. \<not> isSpace c) s"

text \<open>What a chunking loop holds of the text so far: the contents of the chunks it has
  emitted, in the order of the list, and then the chunk under construction.\<close>

definition held :: "chunker \<Rightarrow> string" where
  "held st = solid (concat (map ch_content (st_chunks st))) @ solid (st_currentChunk st)"

text \<open>The lines of a text: the maximal runs of characters other than line terminators,
  between which \<open>^\<close> and \<open>$\<close> match under the \<open>m\<close> flag.\<close>

fun linesOf :: "string \<Rightarrow> string list" where
  "linesOf [] = [[]]"
| "linesOf (c # cs) =
     (if isLineTerminator c then [] # linesOf cs
      else (case linesOf cs of [] \<Rightarrow> [[c]] | l # ls \<Rightarrow> (c # l) # ls))"

text \<open>What the short-line replacement does to one line.\<close>

definition blankShort :: "string \<Rightarrow> string" where
  "blankShort l = (if 1 \<le> length l \<and> length l \<le> 15 then [] else l)"

section \<open>Token counting\<close>

lemma ceil_quarter: "nat \<lceil>of_nat n / (4 :: rat)\<rceil> = (n + 3) div 4"
proof -
  have "of_nat n / (4 :: rat) = of_int (int n) / of_int 4" by simp
  then have "\<lceil>of_nat n / (4 :: rat)\<rceil> = - (- int n div 4)"
    by (simp only: ceiling_divide_eq_div)
  then show ?thesis by (simp; linarith)
qed

text \<open>
  C7. \<open>countTokens\<close> is a total function into the natural numbers: it has no error result
  and its value is never negative. Provided the tokenizer gives at least one token for a
  text that is not empty (as a byte-pair encoding does), the count is 0 exactly for the
  empty string and for an argument that is not a string; and whenever the tokenizer
  throws, the count is \<open>ceil(length / 4)\<close>.
\<close>

theorem countTokens_spec:
  assumes "\<And>t toks. t \<noteq> [] \<Longrightarrow> env_encode e t = Some toks \<Longrightarrow> toks \<noteq> []"
  shows "(countTokens e x = 0 \<longleftrightarrow> x = NotText \<or> x = Text [])
       \<and> (env_encode e s = None
            \<longrightarrow> countTokens e (Text s) = nat \<lceil>of_nat (length s) / (4 :: rat)\<rceil>)"
proof
  show "countTokens e x = 0 \<longleftrightarrow> x = NotText \<or> x = Text []"
  proof (cases x)
    case NotText
    then show ?thesis by simp
  next
    case (Text t)
    show ?thesis
    proof (cases "t = []")
      case True
      with Text show ?thesis by simp
    next
      case False
      have pos: "0 < (length t + 3) div 4" using False by (cases t) auto
      show ?thesis
      proof (cases "env_encode e t")
        case None
        with Text False pos show ?thesis by (simp add: fallbackEstimate_def ceil_quarter)
      next
        case (Some toks)
        with assms[OF False Some] Text False show ?thesis by simp
      qed
    qed
  qed
  show "env_encode e s = None
          \<longrightarrow> countTokens e (Text s) = nat \<lceil>of_nat (length s) / (4 :: rat)\<rceil>"
    by (simp add: fallbackEstimate_def)
qed

theorem countTokens_spec_witness:
  "countTokens charEnv (Text ''Hello world'') \<noteq> 0
   \<and> countTokens charEnv NotText = 0
   \<and> countTokens fallbackEnv (Text ''Hello world'') = 3"
proof -
  have c: "\<And>t toks. t \<noteq> [] \<Longrightarrow> env_encode charEnv t = Some toks \<Longrightarrow> toks \<noteq> []"
    by (auto simp: charEnv_def)
  have f: "\<And>t toks. t \<noteq> [] \<Longrightarrow> env_encode fallbackEnv t = Some toks \<Longrightarrow> toks \<noteq> []"
    by (simp add: fallbackEnv_def)
  have n: "env_encode fallbackEnv ''Hello world'' = None"
    by (simp add: fallbackEnv_def)
  have k: "nat \<lceil>of_nat (length ''Hello world'') / (4 :: rat)\<rceil> = 3"
    by (simp only: ceil_quarter) simp
  from countTokens_spec[where e = charEnv and x = "Text ''Hello world''" and s = "[]", OF c]
       countTokens_spec[where e = charEnv and x = NotText and s = "[]", OF c]
       countTokens_spec[where e = fallbackEnv and x = NotText and s = "''Hello world''", OF f]
       n k
  show ?thesis by simp
qed

section \<open>Results of optimizeForChatGPT\<close>

text \<open>
  C1. If the token count of the extracted \<open>fullText\<close> is at most \<open>maxTokens\<close> (8000 when
  the option is left out), \<open>optimizeForChatGPT\<close> returns the strategy \<open>complete\<close>, no
  chunks (\<open>null\<close>) and that token count as \<open>tokenCount\<close>.
\<close>

theorem optimize_complete:
  assumes "int (countTokens e
                 (Text (cc_fullText (extractAndCleanContent e lifelogs (cleanOptions opts)))))
           \<le> orDefault (opt_maxTokens opts) 8000"
  shows "res_strategy (optimizeForChatGPT e lifelogs opts) = ''complete''
       \<and> res_chunks (optimizeForChatGPT e lifelogs opts) = None
       \<and> res_tokenCount (optimizeForChatGPT e lifelogs opts)
           = Some (countTokens e
                    (Text (cc_fullText (extractAndCleanContent e lifelogs (cleanOptions opts)))))"
  using assms by (simp add: optimizeForChatGPT_def Let_def)

theorem optimize_complete_witness:
  "res_strategy (optimizeForChatGPT fallbackEnv
      [entry ''Standup''
         (''## Standup'' @ [NL] @ ''Discussed the quarterly deadline and urgent action items.'')
         []]
      (noOptions\<lparr>opt_maxTokens := Some 8000\<rparr>)) = ''complete''
   \<and> res_chunks (optimizeForChatGPT fallbackEnv
      [entry ''Standup''
         (''## Standup'' @ [NL] @ ''Discussed the quarterly deadline and urgent action items.'')
         []]
      (noOptions\<lparr>opt_maxTokens := Some 8000\<rparr>)) = None
   \<and> res_tokenCount (optimizeForChatGPT fallbackEnv
      [entry ''Standup''
         (''## Standup'' @ [NL] @ ''Discussed the quarterly deadline and urgent action items.'')
         []]
      (noOptions\<lparr>opt_maxTokens := Some 8000\<rparr>)) = Some 18"
proof -
  let ?ls = "[entry ''Standup''
     (''## Standup'' @ [NL] @ ''Discussed the quarterly deadline and urgent action items.'') []]"
  let ?o = "noOptions\<lparr>opt_maxTokens := Some 8000\<rparr>"
  have n: "countTokens fallbackEnv
             (Text (cc_fullText (extractAndCleanContent fallbackEnv ?ls (cleanOptions ?o)))) = 18"
    by code_simp
  have m: "orDefault (opt_maxTokens ?o) 8000 = 8000"
    by (simp add: orDefault_def)
  have h: "int (countTokens fallbackEnv
                 (Text (cc_fullText (extractAndCleanContent fallbackEnv ?ls (cleanOptions ?o)))))
           \<le> orDefault (opt_maxTokens ?o) 8000"
    unfolding n m by simp
  from optimize_complete[OF h] show ?thesis unfolding n by simp
qed

text \<open>
  C4. Two option objects that differ in \<open>summarizeLevel\<close> only give the same result, in
  every field: \<open>optimizeForChatGPT\<close> does not read the option.
\<close>

theorem summarizeLevel_ignored:
  "optimizeForChatGPT e lifelogs (opts\<lparr>opt_summarizeLevel := a\<rparr>)
   = optimizeForChatGPT e lifelogs (opts\<lparr>opt_summarizeLevel := b\<rparr>)"
  by (simp add: optimizeForChatGPT_def cleanOptions_def temporalChunking_def Let_def)

section \<open>The budget of the consolidated export\<close>

lemma addItem_total:
  assumes "of_nat (ex_totalTokens st) \<le> B" "of_int M * L \<le> B"
  shows "of_nat (ex_totalTokens (addItem e M L fmt b st item)) \<le> B"
  using assms by (auto simp: addItem_def Let_def)

lemma foldl_addItem_total:
  assumes "of_nat (ex_totalTokens st) \<le> B" "of_int M * L \<le> B"
  shows "of_nat (ex_totalTokens (foldl (addItem e M L fmt b) st items)) \<le> B"
  using assms(1)
proof (induction items arbitrary: st)
  case Nil
  then show ?case by simp
next
  case (Cons item items)
  then show ?case using addItem_total[OF _ assms(2)] by simp
qed

lemma section_total:
  assumes "of_nat (ex_totalTokens st) \<le> B" "of_int M * L \<le> B"
  shows "of_nat (ex_totalTokens
           (if c then foldl (addItem e M L fmt b) (st\<lparr>ex_content := h\<rparr>) items else st)) \<le> B"
proof (cases c)
  case True
  have "of_nat (ex_totalTokens (st\<lparr>ex_content := h\<rparr>)) \<le> B" using assms(1) by simp
  from foldl_addItem_total[OF this assms(2)] True show ?thesis by simp
next
  case False
  with assms(1) show ?thesis by simp
qed

lemma exportSections_total:
  assumes "0 < M"
  shows "of_nat (ex_totalTokens (exportSections e g M fmt)) \<le> of_int M * (0.98 :: rat)"
proof -
  define B where "B = of_int M * (0.98 :: rat)"
  have l1: "of_int M * (0.85 :: rat) \<le> B" and l2: "of_int M * (0.95 :: rat) \<le> B"
    and l3: "of_int M * (0.98 :: rat) \<le> B" and l0: "of_nat (0::nat) \<le> B"
    using assms by (simp_all add: B_def)
  have s0: "of_nat (ex_totalTokens \<lparr>ex_content = [], ex_totalTokens = 0, ex_topics = []\<rparr>) \<le> B"
    using l0 by simp
  show ?thesis
    unfolding exportSections_def Let_def B_def[symmetric]
    by (intro section_total s0 l1 l2 l3)
qed

text \<open>The reported count is the total of the loops over the bands: the token counts of
  the entries that were included, without the headings and the footer.\<close>

lemma export_tokenCount:
  "exp_tokenCount (createConsolidatedExport e lifelogs opts) =
   ex_totalTokens (exportSections e (groupByTopicsAndImportance e lifelogs)
      (orDefault (opt_maxTokens opts) 120000) (cleanOptions opts))"
  by (simp add: createConsolidatedExport_def Let_def)

text \<open>
  C8. With \<open>maxTokens > 0\<close> (120000 when the option is left out), the \<open>tokenCount\<close> that
  \<open>createConsolidatedExport\<close> reports is at most \<open>0.98 * maxTokens\<close>, and the strategy it
  returns is \<open>consolidated\<close>, never \<open>prioritized\<close>.
\<close>

theorem export_within_budget:
  assumes "0 < orDefault (opt_maxTokens opts) 120000"
  shows "of_nat (exp_tokenCount (createConsolidatedExport e lifelogs opts))
           \<le> of_int (orDefault (opt_maxTokens opts) 120000) * (0.98 :: rat)
       \<and> exp_strategy (createConsolidatedExport e lifelogs opts) = ''consolidated''"
proof -
  let ?M = "orDefault (opt_maxTokens opts) 120000"
  let ?r = "createConsolidatedExport e lifelogs opts"
  have a: "of_nat (exp_tokenCount ?r) \<le> of_int ?M * (0.98 :: rat)"
    unfolding export_tokenCount by (rule exportSections_total[OF assms])
  have "of_int ?M * (0.98 :: rat) \<le> of_int ?M" using assms by simp
  with a have "(of_nat (exp_tokenCount ?r) :: rat) \<le> of_int ?M" by linarith
  then have b: "int (exp_tokenCount ?r) \<le> ?M"
    by (metis of_int_le_iff of_int_of_nat_eq)
  have "exp_strategy ?r
          = (if int (exp_tokenCount ?r) \<le> ?M then ''consolidated'' else ''prioritized'')"
    by (simp add: createConsolidatedExport_def Let_def)
  with a b show ?thesis by simp
qed

theorem export_within_budget_witness:
  "exp_tokenCount (createConsolidatedExport fallbackEnv
      [entry ''meeting'' ''aaaa'' [], entry ''meeting'' ''aaaabbbb'' []]
      (noOptions\<lparr>opt_maxTokens := Some 6\<rparr>)) = 4
   \<and> exp_strategy (createConsolidatedExport fallbackEnv
      [entry ''meeting'' ''aaaa'' [], entry ''meeting'' ''aaaabbbb'' []]
      (noOptions\<lparr>opt_maxTokens := Some 6\<rparr>)) = ''consolidated''"
proof -
  let ?o = "noOptions\<lparr>opt_maxTokens := Some 6\<rparr>"
  have h: "0 < orDefault (opt_maxTokens ?o) 120000"
    by (simp add: orDefault_def)
  have n: "exp_tokenCount (createConsolidatedExport fallbackEnv
      [entry ''meeting'' ''aaaa'' [], entry ''meeting'' ''aaaabbbb'' []] ?o) = 4"
    by code_simp
  from export_within_budget[OF h] n show ?thesis by simp
qed

section \<open>Chunked results\<close>

lemma sumTokenCounts_sum: "sumTokenCounts cs = sum_list (map ch_tokenCount cs)"
proof -
  have "foldl (\<lambda>sum chunk. sum + ch_tokenCount chunk) a cs = a + sum_list (map ch_tokenCount cs)" for a
    by (induction cs arbitrary: a) auto
  then show ?thesis by (simp add: sumTokenCounts_def)
qed

lemma indexed_snoc:
  assumes "indexed cs" "ch_index c = length cs"
  shows "indexed (cs @ [c])"
  using assms by (simp add: indexed_def)

lemma pushCurrent_inv: "chunkerInv st \<Longrightarrow> chunkerInv (pushCurrent e ty w st)"
  by (simp add: chunkerInv_def pushCurrent_def indexed_snoc)

lemma pushSub_inv: "chunkerInv st \<Longrightarrow> chunkerInv (pushSub st c)"
  by (simp add: chunkerInv_def pushSub_def indexed_snoc)

lemma setCurrent_inv: "chunkerInv st \<Longrightarrow> chunkerInv (st\<lparr>st_currentChunk := c\<rparr>)"
  by (simp add: chunkerInv_def)

lemma fixedStep_inv: "chunkerInv st \<Longrightarrow> chunkerInv (fixedStep e k st s)"
  by (simp add: fixedStep_def Let_def setCurrent_inv pushCurrent_inv)

lemma foldl_inv:
  assumes "\<And>st x. chunkerInv st \<Longrightarrow> chunkerInv (f st x)" "chunkerInv st"
  shows "chunkerInv (foldl f st xs)"
  using assms(2) by (induction xs arbitrary: st) (simp_all add: assms(1))

lemma init_inv: "chunkerInv \<lparr>st_currentChunk = [], st_chunkIndex = 0, st_chunks = []\<rparr>"
  by (simp add: chunkerInv_def indexed_def)

lemma finalChunks_indexed: "chunkerInv st \<Longrightarrow> indexed (finalChunks e ty w st)"
  using pushCurrent_inv[of st e ty w] by (simp add: finalChunks_def chunkerInv_def)

lemma fixedChunking_indexed: "indexed (cr_chunks (fixedChunking e t m))"
  by (simp add: fixedChunking_def Let_def finalChunks_indexed foldl_inv fixedStep_inv init_inv)

lemma semanticStep_inv: "chunkerInv st \<Longrightarrow> chunkerInv (semanticStep e m k st s)"
  by (simp add: semanticStep_def Let_def setCurrent_inv pushCurrent_inv foldl_inv pushSub_inv)

lemma semanticChunking_indexed: "indexed (cr_chunks (semanticChunking e t m))"
  by (simp add: semanticChunking_def Let_def finalChunks_indexed foldl_inv semanticStep_inv init_inv)

lemma chunking_total:
  "cr_totalTokens (fixedChunking e t m) = sum_list (map ch_tokenCount (cr_chunks (fixedChunking e t m)))"
  "cr_totalTokens (semanticChunking e t m) = sum_list (map ch_tokenCount (cr_chunks (semanticChunking e t m)))"
  by (simp_all add: fixedChunking_def semanticChunking_def Let_def sumTokenCounts_sum)

text \<open>The loops only ever append to \<open>chunks\<close>: what was emitted for a prefix of the
  sentences or sections stays in place, in front of what the rest of the text adds.\<close>

lemma pushCurrent_grows: "\<exists>zs. st_chunks (pushCurrent e ty w st) = st_chunks st @ zs"
  by (simp add: pushCurrent_def)

lemma fixedStep_grows: "\<exists>zs. st_chunks (fixedStep e k st s) = st_chunks st @ zs"
  by (simp add: fixedStep_def Let_def pushCurrent_def)

lemma foldl_grows:
  assumes "\<And>st x. \<exists>zs. st_chunks (f st x) = st_chunks st @ zs"
  shows "\<exists>zs. st_chunks (foldl f st xs) = st_chunks st @ zs"
proof (induction xs arbitrary: st)
  case Nil
  show ?case by simp
next
  case (Cons x xs)
  from assms[of st x] obtain zs where a: "st_chunks (f st x) = st_chunks st @ zs" by blast
  from Cons[of "f st x"] obtain ws where "st_chunks (foldl f (f st x) xs) = st_chunks (f st x) @ ws"
    by blast
  with a show ?case by simp
qed

lemma pushSub_grows: "\<exists>zs. st_chunks (pushSub st c) = st_chunks st @ zs"
  by (simp add: pushSub_def)

lemma semanticStep_grows: "\<exists>zs. st_chunks (semanticStep e m k st s) = st_chunks st @ zs"
proof -
  define p where "p = (if truthy (st_currentChunk st) then pushCurrent e ''semantic'' True st
                       else st)"
  have p: "\<exists>zs. st_chunks p = st_chunks st @ zs"
    by (simp add: p_def pushCurrent_def)
  have "\<exists>zs. st_chunks (foldl pushSub p cs) = st_chunks p @ zs" for cs
    by (rule foldl_grows) (rule pushSub_grows)
  with p have q: "\<exists>zs. st_chunks (foldl pushSub p cs) = st_chunks st @ zs" for cs
    by (metis append.assoc)
  show ?thesis
  proof (cases "int (countTokens e (Text (st_currentChunk st
                  @ (if truthy (st_currentChunk st) then [NL, NL] else []) @ s))) \<le> k")
    case True
    then show ?thesis by (simp add: semanticStep_def Let_def del: countTokens.simps)
  next
    case False
    show ?thesis
    proof (cases "int (countTokens e (Text s)) > k")
      case True
      with False have "semanticStep e m k st s
          = (foldl pushSub p (cr_chunks (fixedChunking e s m)))\<lparr>st_currentChunk := []\<rparr>"
        by (simp add: semanticStep_def Let_def p_def del: countTokens.simps)
      with q show ?thesis by simp
    next
      case F2: False
      with False have "semanticStep e m k st s = p\<lparr>st_currentChunk := s\<rparr>"
        by (simp add: semanticStep_def Let_def p_def del: countTokens.simps)
      with p show ?thesis by simp
    qed
  qed
qed

lemma chunks_in_source_order:
  "\<exists>zs. st_chunks (foldl (fixedStep e k) st (xs @ ys))
          = st_chunks (foldl (fixedStep e k) st xs) @ zs"
  "\<exists>zs. st_chunks (foldl (semanticStep e m k) st (xs @ ys))
          = st_chunks (foldl (semanticStep e m k) st xs) @ zs"
  by (simp_all add: foldl_grows fixedStep_grows semanticStep_grows)

text \<open>The chunks spell the text. \<open>solid\<close> takes the white space out of a text; a
  separator that \<open>split\<close> removes is white space or empty, the separators that the loops
  put between two sentences or sections are white space, and \<open>trim\<close> removes white space
  only. So each step of a loop adds the sentence or section it reads to what the loop holds,
  after what it held before.\<close>

lemma firstSome_one: "firstSome f [x] = f x"
  by (simp split: option.split)

lemma solid_append: "solid (a @ b) = solid a @ solid b"
  by (simp add: solid_def)

lemma solid_dropWhile: "solid (dropWhile isSpace s) = solid s"
  by (induction s) (auto simp: solid_def)

lemma solid_rev: "solid (rev s) = rev (solid s)"
  by (simp add: solid_def rev_filter)

lemma solid_trim: "solid (trim s) = solid s"
  by (simp add: trim_def solid_rev solid_dropWhile)

lemma solid_takeWhile: "solid (takeWhile isSpace s) = []"
  by (induction s) (auto simp: solid_def)

lemma solid_gaps: "solid '' '' = []" "solid [NL, NL] = []" "solid [] = []"
  by (simp_all add: solid_def isSpace_def)

lemma rmatch_sentenceGap:
  "rmatch reSentenceGap prev s = Some ks \<Longrightarrow> sum_list ks = length (takeWhile isSpace s)"
proof -
  assume m: "rmatch reSentenceGap prev s = Some ks"
  let ?P = "\<lambda>c. c = CHR ''.'' \<or> c = CHR ''!'' \<or> c = CHR ''?''"
  let ?n = "length (takeWhile isSpace s)"
  have g: "rmatch [Greedy isSpace 1 None] p s = (if 1 \<le> ?n then Some [?n] else None)" for p
  proof -
    have "rmatch [Greedy isSpace 1 None] p s
            = firstSome (\<lambda>k. Some [k]) (rev [1..<Suc ?n])"
      by (subst rmatch.simps(2)) (simp add: repMax_def del: upt_Suc)
    also have "\<dots> = (if 1 \<le> ?n then Some [?n] else None)"
      by (cases "1 \<le> ?n") auto
    finally show ?thesis .
  qed
  have "rmatch reSentenceGap prev s
          = firstSome (\<lambda>k. map_option ((#) k) (rmatch [Greedy isSpace 1 None] (prevAfter prev s k) (drop k s)))
              (choices (Behind ?P) prev s)"
    unfolding reSentenceGap_def by (rule rmatch.simps(2))
  also have "\<dots> = (if choices (Behind ?P) prev s = [0]
                      then map_option ((#) 0) (rmatch [Greedy isSpace 1 None] prev s) else None)"
    by (auto simp: prevAfter_def firstSome_one split: option.splits simp del: rmatch.simps)
  finally have "rmatch reSentenceGap prev s
      = (if choices (Behind ?P) prev s = [0] \<and> 1 \<le> ?n then Some [0, ?n] else None)"
    unfolding g by simp
  with m show ?thesis by (auto split: if_splits)
qed

lemma rmatch_headingAhead:
  "rmatch reHeadingAhead prev s = Some ks \<Longrightarrow> sum_list ks = 0"
  unfolding reHeadingAhead_def
  by (subst (asm) rmatch.simps(2)) (auto split: if_splits)

lemma splitLoop_solid:
  "(\<And>prev s ks. rmatch re prev s = Some ks \<Longrightarrow> solid (take (sum_list ks) s) = [])
   \<Longrightarrow> solid (concat (splitLoop re cur prev s)) = solid (cur @ s)"
proof (induction re cur prev s rule: splitLoop.induct)
  case (1 re cur prev)
  show ?case by simp
next
  case (2 re cur prev c cs)
  note H = "2.prems"
  show ?case
  proof (cases "rmatch re prev (c # cs)")
    case None
    from "2.IH"(1)[OF None H] None show ?thesis by simp
  next
    case (Some ks)
    show ?thesis
    proof (cases "sum_list ks")
      case 0
      have eq: "splitLoop re cur prev (c # cs)
                  = (if cur = [] then splitLoop re (cur @ [c]) (Some c) cs
                     else cur # splitLoop re [] prev (c # cs))"
        by (subst splitLoop.simps) (simp only: Some option.case 0 nat.case)
      show ?thesis
      proof (cases "cur = []")
        case True
        from "2.IH"(2)[OF Some 0 True H] show ?thesis unfolding eq using True by simp
      next
        case False
        from "2.IH"(3)[OF Some 0 False H] show ?thesis unfolding eq using False
          by (simp add: solid_append)
      qed
    next
      case (Suc n)
      from H[OF Some] Suc have z: "solid (take (Suc n) (c # cs)) = []" by simp
      have "c # cs = take (Suc n) (c # cs) @ drop n cs" by simp
      then have "solid (c # cs) = solid (take (Suc n) (c # cs)) @ solid (drop n cs)"
        by (metis solid_append)
      with z have e: "solid (c # cs) = solid (drop n cs)" by simp
      have eq: "splitLoop re cur prev (c # cs)
                  = cur # splitLoop re [] (prevAfter prev (c # cs) (Suc n)) (drop n cs)"
        by (subst splitLoop.simps) (simp only: Some option.case Suc nat.case)
      from "2.IH"(4)[OF Some Suc H] e show ?thesis unfolding eq by (simp add: solid_append)
    qed
  qed
qed

lemma splitRe_solid:
  assumes "\<And>prev s ks. rmatch re prev s = Some ks \<Longrightarrow> solid (take (sum_list ks) s) = []"
  shows "solid (concat (splitRe re s)) = solid s"
  using splitLoop_solid[where re = re and cur = "[]" and prev = None and s = s] assms
  by (auto simp: splitRe_def solid_def split: option.split)

lemma sentences_solid: "solid (concat (splitRe reSentenceGap s)) = solid s"
proof (rule splitRe_solid)
  fix prev t ks assume "rmatch reSentenceGap prev t = Some ks"
  then have "sum_list ks = length (takeWhile isSpace t)" by (rule rmatch_sentenceGap)
  then have "take (sum_list ks) t = takeWhile isSpace t"
    by (simp add: takeWhile_eq_take[symmetric])
  then show "solid (take (sum_list ks) t) = []" by (simp add: solid_takeWhile)
qed

lemma sections_solid: "solid (concat (splitRe reHeadingAhead s)) = solid s"
proof (rule splitRe_solid)
  fix prev t ks assume "rmatch reHeadingAhead prev t = Some ks"
  then have "sum_list ks = 0" by (rule rmatch_headingAhead)
  then have "take (sum_list ks) t = []" by (simp only: take_0)
  then show "solid (take (sum_list ks) t) = []" by (simp only: solid_def filter.simps)
qed


lemma pushCurrent_held:
  "solid (concat (map ch_content (st_chunks (pushCurrent e ty w st)))) = held st"
  by (simp add: pushCurrent_def held_def solid_append solid_trim)

lemma fixedStep_held: "held (fixedStep e k st s) = held st @ solid s"
  by (simp add: fixedStep_def Let_def held_def pushCurrent_def solid_append solid_trim
        solid_gaps truthy_def del: countTokens.simps)

lemma foldl_held:
  assumes "\<And>st x. held (f st x) = held st @ solid x"
  shows "held (foldl f st xs) = held st @ solid (concat xs)"
  by (induction xs arbitrary: st) (simp_all add: assms solid_append solid_gaps)

lemma finalChunks_held: "solid (concat (map ch_content (finalChunks e ty w st))) = held st"
  by (simp add: finalChunks_def pushCurrent_held) (simp add: held_def truthy_def solid_gaps)

lemma fixedChunking_spells:
  "solid (concat (map ch_content (cr_chunks (fixedChunking e t m)))) = solid t"
  by (simp add: fixedChunking_def Let_def finalChunks_held foldl_held fixedStep_held
        sentences_solid) (simp add: held_def solid_gaps)

lemma pushSub_contents:
  "map ch_content (st_chunks (foldl pushSub st cs)) = map ch_content (st_chunks st) @ map ch_content cs"
  "st_currentChunk (foldl pushSub st cs) = st_currentChunk st"
  by (induction cs arbitrary: st) (simp_all add: pushSub_def)

lemma semanticStep_held: "held (semanticStep e m k st s) = held st @ solid s"
proof -
  define p where "p = (if truthy (st_currentChunk st) then pushCurrent e ''semantic'' True st
                       else st)"
  have p: "solid (concat (map ch_content (st_chunks p))) = held st"
    by (simp add: p_def pushCurrent_held) (simp add: held_def truthy_def solid_gaps)
  show ?thesis
  proof (cases "int (countTokens e (Text (st_currentChunk st
                  @ (if truthy (st_currentChunk st) then [NL, NL] else []) @ s))) \<le> k")
    case True
    then show ?thesis
      by (simp add: semanticStep_def Let_def held_def solid_append solid_gaps
            del: countTokens.simps)
  next
    case False
    show ?thesis
    proof (cases "int (countTokens e (Text s)) > k")
      case True
      with False have "semanticStep e m k st s
          = (foldl pushSub p (cr_chunks (fixedChunking e s m)))\<lparr>st_currentChunk := []\<rparr>"
        by (simp add: semanticStep_def Let_def p_def del: countTokens.simps)
      then show ?thesis
        using p fixedChunking_spells[of e s m]
        by (simp add: held_def pushSub_contents solid_append solid_gaps)
    next
      case F2: False
      with False have "semanticStep e m k st s = p\<lparr>st_currentChunk := s\<rparr>"
        by (simp add: semanticStep_def Let_def p_def del: countTokens.simps)
      with p show ?thesis by (simp add: held_def)
    qed
  qed
qed

lemma semanticChunking_spells:
  "solid (concat (map ch_content (cr_chunks (semanticChunking e t m)))) = solid t"
  by (simp add: semanticChunking_def Let_def finalChunks_held foldl_held semanticStep_held
        sections_solid) (simp add: held_def solid_gaps)

text \<open>
  C3. For a chunked result of \<open>optimizeForChatGPT\<close>, whatever the strategy, the
  \<open>tokenCount\<close> fields of the chunks add up to \<open>optimizedTokens\<close>, the \<open>index\<close>
  fields are 0, 1, 2, ... along the chunk list, and the list is in the order of the source
  text: the \<open>content\<close> fields, read one after the other in the order of their indices,
  give the extracted \<open>fullText\<close> from its first character to its last, up to white space
  (the chunks lose the white space between sentences and sections and nothing else).
\<close>

theorem chunked_result_accounting:
  assumes "res_chunks (optimizeForChatGPT e lifelogs opts) = Some cs"
  shows "res_optimizedTokens (optimizeForChatGPT e lifelogs opts) = Some (sum_list (map ch_tokenCount cs))
       \<and> map ch_index cs = [0..<length cs]
       \<and> solid (concat (map ch_content cs))
           = solid (cc_fullText (extractAndCleanContent e lifelogs (cleanOptions opts)))"
proof -
  let ?t = "cc_fullText (extractAndCleanContent e lifelogs (cleanOptions opts))"
  let ?m = "orDefault (opt_maxTokens opts) 8000"
  let ?s = "orDefault (opt_chunkStrategy opts) ''semantic''"
  define r where "r = (if ?s = ''semantic'' then semanticChunking e ?t ?m
                       else if ?s = ''temporal'' then temporalChunking e ?t ?m opts
                       else fixedChunking e ?t ?m)"
  have over: "\<not> int (countTokens e (Text ?t)) \<le> ?m"
    using assms by (auto simp: optimizeForChatGPT_def Let_def)
  have cs: "cs = cr_chunks r" and tot: "res_optimizedTokens (optimizeForChatGPT e lifelogs opts) = Some (cr_totalTokens r)"
    using assms over by (auto simp: optimizeForChatGPT_def Let_def r_def)
  have "indexed (cr_chunks r)" and "cr_totalTokens r = sum_list (map ch_tokenCount (cr_chunks r))"
    and "solid (concat (map ch_content (cr_chunks r))) = solid ?t"
    unfolding r_def temporalChunking_def
    by (simp_all add: fixedChunking_indexed semanticChunking_indexed chunking_total
          fixedChunking_spells semanticChunking_spells)
  with cs tot show ?thesis by (simp add: indexed_def)
qed

theorem chunked_result_accounting_witness:
  "map_option (map ch_index) (res_chunks (optimizeForChatGPT fallbackEnv
      [entry ''Plan'' ''We agreed on the plan. It is fine.'' [],
       entry ''Lunch'' ''We had lunch. It was a good lunch.'' [],
       entry ''Walk'' ''We went out for a long walk in the park. It was sunny.'' []]
      (noOptions\<lparr>opt_maxTokens := Some 16\<rparr>))) = Some [0, 1, 2, 3]
   \<and> res_optimizedTokens (optimizeForChatGPT fallbackEnv
      [entry ''Plan'' ''We agreed on the plan. It is fine.'' [],
       entry ''Lunch'' ''We had lunch. It was a good lunch.'' [],
       entry ''Walk'' ''We went out for a long walk in the park. It was sunny.'' []]
      (noOptions\<lparr>opt_maxTokens := Some 16\<rparr>)) = Some 41
   \<and> map_option (map ch_content) (res_chunks (optimizeForChatGPT fallbackEnv
      [entry ''Plan'' ''We agreed on the plan. It is fine.'' [],
       entry ''Lunch'' ''We had lunch. It was a good lunch.'' [],
       entry ''Walk'' ''We went out for a long walk in the park. It was sunny.'' []]
      (noOptions\<lparr>opt_maxTokens := Some 16\<rparr>)))
       = Some [''## Plan'' @ [NL, NL] @ ''We agreed on the plan. It is fine.'',
              ''## Lunch'' @ [NL, NL] @ ''We had lunch. It was a good lunch.'',
              ''## Walk'' @ [NL, NL] @ ''We went out for a long walk in the park.'',
              ''It was sunny.'']
   \<and> solid (cc_fullText (extractAndCleanContent fallbackEnv
      [entry ''Plan'' ''We agreed on the plan. It is fine.'' [],
       entry ''Lunch'' ''We had lunch. It was a good lunch.'' [],
       entry ''Walk'' ''We went out for a long walk in the park. It was sunny.'' []]
      (cleanOptions (noOptions\<lparr>opt_maxTokens := Some 16\<rparr>))))
       = ''##PlanWeagreedontheplan.Itisfine.##LunchWehadlunch.Itwasagoodlunch.''
         @ ''##WalkWewentoutforalongwalkinthepark.Itwassunny.''"
proof -
  let ?r = "optimizeForChatGPT fallbackEnv
      [entry ''Plan'' ''We agreed on the plan. It is fine.'' [],
       entry ''Lunch'' ''We had lunch. It was a good lunch.'' [],
       entry ''Walk'' ''We went out for a long walk in the park. It was sunny.'' []]
      (noOptions\<lparr>opt_maxTokens := Some 16\<rparr>)"
  have k: "map_option (map ch_tokenCount) (res_chunks ?r) = Some [12, 12, 13, 4]"
    by code_simp
  have v: "map_option (map ch_content) (res_chunks ?r)
       = Some [''## Plan'' @ [NL, NL] @ ''We agreed on the plan. It is fine.'',
              ''## Lunch'' @ [NL, NL] @ ''We had lunch. It was a good lunch.'',
              ''## Walk'' @ [NL, NL] @ ''We went out for a long walk in the park.'',
              ''It was sunny.'']"
    by code_simp
  from k obtain cs where c: "res_chunks ?r = Some cs" and t: "map ch_tokenCount cs = [12, 12, 13, 4]"
    by auto
  from v c have w: "map ch_content cs
       = [''## Plan'' @ [NL, NL] @ ''We agreed on the plan. It is fine.'',
              ''## Lunch'' @ [NL, NL] @ ''We had lunch. It was a good lunch.'',
              ''## Walk'' @ [NL, NL] @ ''We went out for a long walk in the park.'',
              ''It was sunny.'']"
    by simp
  have s: "solid (concat [''## Plan'' @ [NL, NL] @ ''We agreed on the plan. It is fine.'',
              ''## Lunch'' @ [NL, NL] @ ''We had lunch. It was a good lunch.'',
              ''## Walk'' @ [NL, NL] @ ''We went out for a long walk in the park.'',
              ''It was sunny.''])
       = ''##PlanWeagreedontheplan.Itisfine.##LunchWehadlunch.Itwasagoodlunch.''
         @ ''##WalkWewentoutforalongwalkinthepark.Itwassunny.''"
    by code_simp
  from t have "length (map ch_tokenCount cs) = 4" by simp
  then have n: "length cs = 4" by simp
  have u: "[0..<4] = [0, 1, 2, 3::nat]" by (simp add: upt_rec)
  from chunked_result_accounting[OF c] have
    a1: "res_optimizedTokens ?r = Some (sum_list (map ch_tokenCount cs))"
    and a2: "map ch_index cs = [0..<length cs]"
    and a3: "solid (concat (map ch_content cs))
           = solid (cc_fullText (extractAndCleanContent fallbackEnv
      [entry ''Plan'' ''We agreed on the plan. It is fine.'' [],
       entry ''Lunch'' ''We had lunch. It was a good lunch.'' [],
       entry ''Walk'' ''We went out for a long walk in the park. It was sunny.'' []]
      (cleanOptions (noOptions\<lparr>opt_maxTokens := Some 16\<rparr>))))"
    by simp_all
  from a1 t have b1: "res_optimizedTokens ?r = Some 41" by simp
  from a2 c n u have b2: "map_option (map ch_index) (res_chunks ?r) = Some [0, 1, 2, 3]" by simp
  from a3 have b3: "solid (cc_fullText (extractAndCleanContent fallbackEnv
      [entry ''Plan'' ''We agreed on the plan. It is fine.'' [],
       entry ''Lunch'' ''We had lunch. It was a good lunch.'' [],
       entry ''Walk'' ''We went out for a long walk in the park. It was sunny.'' []]
      (cleanOptions (noOptions\<lparr>opt_maxTokens := Some 16\<rparr>))))
       = ''##PlanWeagreedontheplan.Itisfine.##LunchWehadlunch.Itwasagoodlunch.''
         @ ''##WalkWewentoutforalongwalkinthepark.Itwassunny.''"
    unfolding w s by simp
  from b1 b2 v b3 show ?thesis by (intro conjI)
qed

section \<open>The date range\<close>

text \<open>In a time zone of constant offset the next day is one day of milliseconds later, and
  the loop ends.\<close>

lemma dateLoop_eq:
  assumes "\<And>t isUTC. env_LocalTZA e t isUTC = c"
  shows "dateLoop e a b dates
           = Some (dates @ map (\<lambda>k. isoDate (a + int k * msPerDay))
                              [0..<nat ((b - a) div msPerDay + 1)])"
proof (induction "nat (b - a + 1)" arbitrary: a dates rule: less_induct)
  case less
  have D: "0 < msPerDay" by (simp add: msPerDay_def)
  have nx: "setDateNext e a = a + msPerDay"
    by (simp add: setDateNext_def Let_def assms)
  show ?case
  proof (cases "a \<le> b")
    case False
    then have "(b - a) div msPerDay < 0" by (simp add: msPerDay_def)
    then have "nat ((b - a) div msPerDay + 1) = 0" by simp
    with False show ?thesis by (subst dateLoop.simps) simp
  next
    case True
    have q: "(b - (a + msPerDay)) div msPerDay + 1 = (b - a) div msPerDay"
      using D by (metis add.commute diff_diff_eq div_add_self2 diff_add_cancel less_irrefl)
    have nn: "0 \<le> (b - a) div msPerDay" using True D by (simp add: pos_imp_zdiv_nonneg_iff)
    then have n: "nat ((b - a) div msPerDay + 1) = Suc (nat ((b - a) div msPerDay))" by simp
    have "nat (b - (a + msPerDay) + 1) < nat (b - a + 1)" using True D by simp
    from less[OF this, of "dates @ [isoDate a]"] q
    have ih: "dateLoop e (a + msPerDay) b (dates @ [isoDate a])
        = Some (dates @ isoDate a
                # map (\<lambda>k. isoDate (a + msPerDay + int k * msPerDay))
                    [0..<nat ((b - a) div msPerDay)])"
      by simp
    have "dateLoop e a b dates = dateLoop e (a + msPerDay) b (dates @ [isoDate a])"
      using True nx by (subst dateLoop.simps) simp
    also note ih
    also have "map (\<lambda>k. isoDate (a + msPerDay + int k * msPerDay)) [0..<nat ((b - a) div msPerDay)]
        = map (\<lambda>k. isoDate (a + int k * msPerDay)) (map Suc [0..<nat ((b - a) div msPerDay)])"
      by (simp add: algebra_simps)
    finally show ?thesis unfolding n
      by (simp add: upt_conv_Cons map_Suc_upt del: upt_Suc)
  qed
qed

text \<open>
  On a host whose time zone has a constant offset from UTC, and for two valid dates,
  \<open>getDateRange\<close> returns: it throws (here: the error result) when the start is after the
  end, and otherwise gives the calendar dates of the start, of one day later, of two days
  later and so on up to the end, in this order; for 2024-01-01 and 2024-01-03 on a host in
  UTC these are the three dates of the example.
\<close>

lemma getDateRange_constant_offset:
  assumes "\<And>t isUTC. env_LocalTZA e t isUTC = c"
    and "dateValue e startDate = Some a" "dateValue e endDate = Some b"
  shows "getDateRange e startDate endDate =
           Some (if a > b then Inl StartAfterEnd
                 else Inr (map (\<lambda>k. isoDate (a + int k * msPerDay))
                             [0..<nat ((b - a) div msPerDay + 1)]))"
  using assms(2,3) by (simp add: getDateRange_def dateLoop_eq[OF assms(1)])

lemma getDateRange_utc_example:
  "getDateRange fallbackEnv ''2024-01-01'' ''2024-01-03''
     = Some (Inr [''2024-01-01'', ''2024-01-02'', ''2024-01-03''])
   \<and> getDateRange fallbackEnv ''2024-01-03'' ''2024-01-01'' = Some (Inl StartAfterEnd)"
proof -
  have z: "\<And>t isUTC. env_LocalTZA fallbackEnv t isUTC = 0"
    by (simp add: fallbackEnv_def)
  have a: "dateValue fallbackEnv ''2024-01-01'' = Some 1704067200000"
    by code_simp
  have b: "dateValue fallbackEnv ''2024-01-03'' = Some 1704240000000"
    by code_simp
  have n: "nat ((1704240000000 - 1704067200000) div msPerDay + 1) = 3"
    by (simp add: msPerDay_def)
  have u: "[0..<3] = [0, 1, 2::nat]" by (simp add: upt_rec)
  have d: "isoDate 1704067200000 = ''2024-01-01''"
    "isoDate (1704067200000 + msPerDay) = ''2024-01-02''"
    "isoDate (1704067200000 + 2 * msPerDay) = ''2024-01-03''"
    by code_simp+
  from getDateRange_constant_offset[OF z a b] getDateRange_constant_offset[OF z b a] d
  show ?thesis unfolding n u by simp
qed

text \<open>
  C10. The loop of \<open>getDateRange\<close> steps with \<open>setDate(getDate() + 1)\<close>, which counts
  days in the local time of the host, and prints each date with \<open>toISOString\<close>, which
  gives the UTC date. On a host whose clock goes forward inside the range (New York,
  2024-03-10) the step over that day is 23 hours long: for 2024-03-09 to 2024-03-12 the
  result has 2024-03-10 twice and lacks the end date 2024-03-12, where every date from the
  start to the end is to come once. A start after the end is an error on this host too.
\<close>

theorem getDateRange_clock_change:
  "getDateRange dstEnv ''2024-03-09'' ''2024-03-12''
     = Some (Inr [''2024-03-09'', ''2024-03-10'', ''2024-03-10'', ''2024-03-11''])
   \<and> getDateRange dstEnv ''2024-03-12'' ''2024-03-09'' = Some (Inl StartAfterEnd)"
proof -
  have a: "dateValue dstEnv ''2024-03-09'' = Some 1709942400000"
    by code_simp
  have b: "dateValue dstEnv ''2024-03-12'' = Some 1710201600000"
    by code_simp
  have n: "setDateNext dstEnv 1709942400000 = 1710028800000"
    "setDateNext dstEnv 1710028800000 = 1710111600000"
    "setDateNext dstEnv 1710111600000 = 1710198000000"
    "setDateNext dstEnv 1710198000000 = 1710284400000"
    by (simp_all add: setDateNext_def dstEnv_def msPerDay_def)
  have d: "isoDate 1709942400000 = ''2024-03-09''"
    "isoDate 1710028800000 = ''2024-03-10''"
    "isoDate 1710111600000 = ''2024-03-10''"
    "isoDate 1710198000000 = ''2024-03-11''"
    by code_simp+
  have "dateLoop dstEnv 1709942400000 1710201600000 []
          = Some [''2024-03-09'', ''2024-03-10'', ''2024-03-10'', ''2024-03-11'']"
    apply (subst dateLoop.simps, simp only: n d)
    apply (subst dateLoop.simps, simp only: n d)
    apply (subst dateLoop.simps, simp only: n d)
    apply (subst dateLoop.simps, simp only: n d)
    apply (subst dateLoop.simps)
    apply simp
    done
  with a b show ?thesis by (simp add: getDateRange_def)
qed

section \<open>Speaker prefixes in the extraction\<close>

text \<open>
  C2. \<open>lightSummarize\<close> itself strips the prefixes exactly when its second argument is
  falsy. \<open>extractAndCleanContent\<close> calls \<open>processContentBySummarizeLevel(markdown,
  includeSpeakers)\<close> with two arguments for the three parameters \<open>(content, level,
  includeSpeakers)\<close>: the flag lands in \<open>level\<close>, and \<open>includeSpeakers\<close> is
  \<open>undefined\<close>. With \<open>includeSpeakers = true\<close> the prefix of the entry below is
  stripped from \<open>fullText\<close>, while \<open>lightSummarize\<close> with \<open>true\<close> keeps it.
\<close>

theorem extraction_strips_speaker_prefix:
  "cc_fullText (extractAndCleanContent e
      [entry [] ''[Alice]: I will send the report tomorrow morning.'' []]
      (cleanOptions (noOptions\<lparr>opt_includeSpeakers := Some True\<rparr>)))
     = ''I will send the report tomorrow morning.''
   \<and> lightSummarize ''[Alice]: I will send the report tomorrow morning.'' (JBool True)
     = ''[Alice]: I will send the report tomorrow morning.''"
  by code_simp

section \<open>The order inside a priority band\<close>

text \<open>
  C5. The comparator of the sort reads the field \<open>timestamp\<close>, which an entry does not
  have (its times are \<open>startTime\<close> and \<open>endTime\<close>): both dates are invalid, the
  comparator gives \<open>NaN\<close>, and the band keeps the input order. Two entries of the low
  band given with the later start time first come out in that order.
\<close>

theorem band_keeps_input_order:
  "map ll_startTime (lowPriority (groupByTopicsAndImportance e
      [entry ''Dinner'' ''pasta'' ''2024-01-02T19:00:00Z'',
       entry ''Breakfast'' ''toast'' ''2024-01-01T08:00:00Z'']))
   = [''2024-01-02T19:00:00Z'', ''2024-01-01T08:00:00Z'']"
  by code_simp

section \<open>The footer of the consolidated export\<close>

lemma length_insertBy: "length (insertBy cmp x xs) = Suc (length xs)"
  by (induction xs) auto

lemma length_sortBy: "length (sortBy cmp xs) = length xs"
  by (induction xs) (auto simp: length_insertBy)

lemma groupEntry_lengths:
  "length (highPriority (groupEntry g x)) + length (mediumPriority (groupEntry g x))
     + length (lowPriority (groupEntry g x))
   = Suc (length (highPriority g) + length (mediumPriority g) + length (lowPriority g))"
  by (simp add: groupEntry_def Let_def)

lemma foldl_groupEntry_lengths:
  "length (highPriority (foldl groupEntry g xs)) + length (mediumPriority (foldl groupEntry g xs))
     + length (lowPriority (foldl groupEntry g xs))
   = length (highPriority g) + length (mediumPriority g) + length (lowPriority g) + length xs"
proof (induction xs arbitrary: g)
  case Nil
  show ?case by simp
next
  case (Cons x xs)
  show ?case using Cons[of "groupEntry g x"] groupEntry_lengths[of g x] by simp
qed

lemma bands_partition:
  "length (highPriority (groupByTopicsAndImportance e lifelogs))
     + length (mediumPriority (groupByTopicsAndImportance e lifelogs))
     + length (lowPriority (groupByTopicsAndImportance e lifelogs)) = length lifelogs"
  using foldl_groupEntry_lengths[of "\<lparr>highPriority = [], mediumPriority = [], lowPriority = []\<rparr>" lifelogs]
  by (simp add: groupByTopicsAndImportance_def Let_def length_sortBy)

lemma floor_tenths: "nat \<lfloor>of_nat n * (of_nat k / 10 :: rat)\<rfloor> = (k * n) div 10"
proof -
  have "of_nat n * (of_nat k / 10 :: rat) = of_int (int (k * n)) / of_int 10" by simp
  then have a: "\<lfloor>of_nat n * (of_nat k / 10 :: rat)\<rfloor> = int (k * n) div 10"
    by (simp only: floor_divide_of_int_eq)
  have b: "int (k * n) div 10 = int ((k * n) div 10)" by (simp add: zdiv_int)
  show ?thesis unfolding a b by simp
qed

lemma countProcessedEntries_div:
  "countProcessedEntries g = length (highPriority g) + (8 * length (mediumPriority g)) div 10
     + (3 * length (lowPriority g)) div 10"
  using floor_tenths[of "length (mediumPriority g)" 8] floor_tenths[of "length (lowPriority g)" 3]
  by (simp add: countProcessedEntries_def)

text \<open>The content of the export: the sections, and then the footer when the token total of
  the included entries is at least \<open>0.95 * maxTokens\<close> and the count to report is
  positive.\<close>

lemma export_content:
  "let g = groupByTopicsAndImportance e lifelogs;
       n = length lifelogs - countProcessedEntries g;
       maxTokens = orDefault (opt_maxTokens opts) 120000;
       r = createConsolidatedExport e lifelogs opts
   in exp_content r
        = ex_content (exportSections e g maxTokens (cleanOptions opts))
          @ (if of_int maxTokens * (0.95 :: rat) \<le> of_nat (exp_tokenCount r) \<and> 0 < n
             then footerText n else [])"
proof -
  define g where "g = groupByTopicsAndImportance e lifelogs"
  define n where "n = length lifelogs - countProcessedEntries g"
  have "countProcessedEntries g \<le> length (highPriority g) + length (mediumPriority g)
          + length (lowPriority g)"
    unfolding countProcessedEntries_div by simp
  then have le: "countProcessedEntries g \<le> length lifelogs"
    unfolding g_def by (simp only: bands_partition)
  then have rem: "int (length lifelogs) - int (countProcessedEntries g) = int n"
    unfolding n_def by simp
  show ?thesis
    unfolding Let_def g_def[symmetric] n_def[symmetric]
    by (simp add: createConsolidatedExport_def Let_def g_def[symmetric] rem)
qed

text \<open>
  C6, the count of the footer as the code has it. A footer that \<open>createConsolidatedExport\<close>
  appends reports the count \<open>n\<close>, and \<open>n\<close> is positive: \<open>n\<close> is the number of entries
  minus \<open>countProcessedEntries\<close>, which is \<open>|high| + floor(0.8 * |medium|) + floor(0.3 *
  |low|)\<close>, so that \<open>n = (|medium| - floor(0.8 * |medium|)) + (|low| - floor(0.3 *
  |low|))\<close>, with \<open>|band|\<close> the number of all entries of the band, included or not. The
  content of the export is the sections alone, or the sections and then this footer.
\<close>

theorem footer_reports_estimate:
  "let g = groupByTopicsAndImportance e lifelogs;
       h = length (highPriority g);
       m = length (mediumPriority g);
       l = length (lowPriority g);
       n = length lifelogs - countProcessedEntries g;
       maxTokens = orDefault (opt_maxTokens opts) 120000;
       sections = ex_content (exportSections e g maxTokens (cleanOptions opts));
       r = createConsolidatedExport e lifelogs opts
   in (exp_content r = sections \<or> 0 < n \<and> exp_content r = sections @ footerText n)
      \<and> countProcessedEntries g = h + (8 * m) div 10 + (3 * l) div 10
      \<and> n = (m - (8 * m) div 10) + (l - (3 * l) div 10)"
proof -
  define g where "g = groupByTopicsAndImportance e lifelogs"
  define m where "m = length (mediumPriority g)"
  define l where "l = length (lowPriority g)"
  define h where "h = length (highPriority g)"
  define n where "n = length lifelogs - countProcessedEntries g"
  define sections where
    "sections = ex_content (exportSections e g (orDefault (opt_maxTokens opts) 120000) (cleanOptions opts))"
  have part: "h + m + l = length lifelogs"
    unfolding h_def m_def l_def g_def by (rule bands_partition)
  have cp: "countProcessedEntries g = h + (8 * m) div 10 + (3 * l) div 10"
    unfolding h_def m_def l_def by (rule countProcessedEntries_div)
  have n: "n = (m - (8 * m) div 10) + (l - (3 * l) div 10)"
    unfolding n_def cp part[symmetric] by linarith
  have "exp_content (createConsolidatedExport e lifelogs opts) = sections
        \<or> 0 < n \<and> exp_content (createConsolidatedExport e lifelogs opts) = sections @ footerText n"
    using export_content[of e lifelogs opts]
    unfolding Let_def g_def[symmetric] n_def[symmetric] sections_def[symmetric]
    by (simp split: if_splits)
  with cp n show ?thesis
    unfolding Let_def g_def[symmetric] m_def[symmetric] l_def[symmetric] h_def[symmetric]
      n_def[symmetric] sections_def[symmetric]
    by simp
qed

text \<open>
  C6 as stated fails twice. In the first export the second entry does not fit under the
  ceiling of its band and is left out, and the document has no footer. In the second
  export every text that is counted contains \<open><|endoftext|>\<close> and gets the fallback
  estimate: 14 tokens for the entry of the high band, 5 for the entry of the medium band and
  10 for the first entry of the low band are included, 29 in all, and the second entry of
  the low band, of 5 tokens, is left out under the ceiling of \<open>0.98 * 30\<close>. One entry of
  the low band is unprocessed and none of the other bands: the stated formula gives \<open>0 +
  floor(0.8 * 0) + floor(0.3 * 1) = 0\<close>, and \<open>1 + floor(0.8 * 1) + floor(0.3 * 2) = 1\<close>
  when it is read over the whole bands; the footer reports 3.
\<close>

theorem footer_counterexample:
  "exp_content (createConsolidatedExport fallbackEnv
      [entry ''Team meeting'' ''Budget review'' [], entry ''Client call'' ''Contract terms'' []]
      (noOptions\<lparr>opt_maxTokens := Some 12\<rparr>))
     = ''## Key Activities & Important Conversations'' @ [NL, NL]
       @ ''## Team meeting'' @ [NL, NL] @ ''Budget review'' @ [NL, NL]
   \<and> exp_content (createConsolidatedExport specialTokenEnv
      [entry ''Team meeting'' ''We will ship on Friday. <|endoftext|>'' [],
       entry [] ''idea <|endoftext|>'' [],
       entry ''Short nap on the sofa <|endoftext|>'' [] [],
       entry ''Tea <|endoftext|>'' [] []]
      (noOptions\<lparr>opt_maxTokens := Some 30\<rparr>))
     = ''## Key Activities & Important Conversations'' @ [NL, NL]
       @ ''## Team meeting'' @ [NL, NL] @ ''We will ship on Friday. <|endoftext|>'' @ [NL, NL]
       @ ''## Regular Activities & Conversations'' @ [NL, NL]
       @ ''idea <|endoftext|>'' @ [NL, NL]
       @ ''## Background Activities'' @ [NL, NL]
       @ ''## Short nap on the sofa <|endoftext|>'' @ [NL, NL]
       @ footerText 3
   \<and> exp_tokenCount (createConsolidatedExport specialTokenEnv
      [entry ''Team meeting'' ''We will ship on Friday. <|endoftext|>'' [],
       entry [] ''idea <|endoftext|>'' [],
       entry ''Short nap on the sofa <|endoftext|>'' [] [],
       entry ''Tea <|endoftext|>'' [] []]
      (noOptions\<lparr>opt_maxTokens := Some 30\<rparr>)) = 29
   \<and> nat \<lfloor>0 :: rat\<rfloor> + nat \<lfloor>0.8 * (0 :: rat)\<rfloor> + nat \<lfloor>0.3 * (1 :: rat)\<rfloor> = 0
   \<and> nat \<lfloor>1 :: rat\<rfloor> + nat \<lfloor>0.8 * (1 :: rat)\<rfloor> + nat \<lfloor>0.3 * (2 :: rat)\<rfloor> = 1"
  by code_simp

section \<open>The short-line rule of Light summarization\<close>

lemma firstSome_None: "(\<And>x. x \<in> set xs \<Longrightarrow> f x = None) \<Longrightarrow> firstSome f xs = None"
  by (induction xs) auto

lemma firstSome_single: "firstSome f [x] = f x"
  by (simp split: option.split)

lemma firstSome_hit: "f x = Some y \<Longrightarrow> firstSome f (x # xs) = Some y"
  by simp

lemma atEol_dropWhile: "atEol (dropWhile notLineTerminator s)"
proof (cases "dropWhile notLineTerminator s")
  case Nil
  show ?thesis unfolding Nil atEol_def by simp
next
  case (Cons c cs)
  have "\<not> notLineTerminator c" using hd_dropWhile[of notLineTerminator s] Cons by auto
  then show ?thesis unfolding Cons atEol_def by (simp add: notLineTerminator_def)
qed

lemma atEol_drop:
  assumes "k \<le> length (takeWhile notLineTerminator s)"
  shows "atEol (drop k s) \<longleftrightarrow> k = length (takeWhile notLineTerminator s)"
proof (cases "k = length (takeWhile notLineTerminator s)")
  case True
  have "drop (length (takeWhile notLineTerminator s)) s = dropWhile notLineTerminator s"
    by (simp add: dropWhile_eq_drop)
  with atEol_dropWhile[of s] True show ?thesis by simp
next
  case False
  with assms have lt: "k < length (takeWhile notLineTerminator s)" by simp
  then have ks: "k < length s" using length_takeWhile_le[of notLineTerminator s] by simp
  have "takeWhile notLineTerminator s ! k \<in> set (takeWhile notLineTerminator s)"
    using lt by simp
  then have "notLineTerminator (takeWhile notLineTerminator s ! k)"
    by (auto dest: set_takeWhileD)
  then have p: "notLineTerminator (s ! k)" using lt by (simp add: takeWhile_nth)
  have "drop k s = s ! k # drop (Suc k) s" using ks by (simp add: Cons_nth_drop_Suc)
  with p have "\<not> atEol (drop k s)" by (simp add: atEol_def notLineTerminator_def)
  with False show ?thesis by simp
qed

lemma rmatch_Eol: "rmatch [Eol] p t = (if atEol t then Some [0] else None)"
  by (subst rmatch.simps(2)) simp

lemma takeWhile_dropWhile_Nil: "takeWhile P (dropWhile P s) = []"
proof (cases "dropWhile P s")
  case Nil
  show ?thesis unfolding Nil by simp
next
  case (Cons c cs)
  have "\<not> P c" using hd_dropWhile[of P s] Cons by auto
  then show ?thesis unfolding Cons by simp
qed

lemma rmatch_Bol:
  "rmatch (Bol # as) prev s = (if atBol prev then map_option ((#) 0) (rmatch as prev s) else None)"
  by (subst rmatch.simps(2)) (simp add: prevAfter_def split: option.split del: rmatch.simps)

lemma rmatch_run:
  "rmatch [Greedy notLineTerminator 1 (Some 15), Eol] prev s =
     (let n = length (takeWhile notLineTerminator s)
      in if 1 \<le> n \<and> n \<le> 15 then Some [n, 0] else None)"
proof -
  define n where "n = length (takeWhile notLineTerminator s)"
  define f where "f = (\<lambda>k. map_option ((#) k) (rmatch [Eol] (prevAfter prev s k) (drop k s)))"
  have f: "f k = (if k = n then Some [n, 0] else None)" if "k \<le> n" for k
    using atEol_drop[of k s] that unfolding f_def rmatch_Eol n_def by simp
  have m: "repMax notLineTerminator (Some 15) s = min 15 n"
    by (simp add: repMax_def n_def)
  have r: "rmatch [Greedy notLineTerminator 1 (Some 15), Eol] prev s
             = firstSome f (rev [1..<Suc (min 15 n)])"
    unfolding f_def by (subst rmatch.simps(2)) (simp only: choices.simps m)
  show ?thesis
  proof (cases "1 \<le> n \<and> n \<le> 15")
    case True
    then have "rev [1..<Suc (min 15 n)] = n # rev [1..<n]" by simp
    with f[of n] True show ?thesis unfolding r n_def[symmetric] Let_def by simp
  next
    case False
    have "firstSome f (rev [1..<Suc (min 15 n)]) = None"
    proof (rule firstSome_None)
      fix k assume "k \<in> set (rev [1..<Suc (min 15 n)])"
      then have "1 \<le> k" "k \<le> 15" "k \<le> n" by auto
      with False have "k \<noteq> n" by auto
      with f[OF \<open>k \<le> n\<close>] show "f k = None" by simp
    qed
    with False show ?thesis unfolding r n_def[symmetric] Let_def by simp
  qed
qed

lemma rmatch_shortLine:
  "rmatch reShortLine prev s =
     (let n = length (takeWhile notLineTerminator s)
      in if atBol prev \<and> 1 \<le> n \<and> n \<le> 15 then Some [0, n, 0] else None)"
  unfolding reShortLine_def rmatch_Bol rmatch_run by (simp add: Let_def)

text \<open>The replacement from a position inside a line and from the start of a line.\<close>

lemma replace_inside:
  assumes "\<not> atBol prev"
  shows "replaceFrom reShortLine [] prev s =
           takeWhile notLineTerminator s
           @ (case dropWhile notLineTerminator s of [] \<Rightarrow> []
              | t # rest \<Rightarrow> t # replaceFrom reShortLine [] (Some t) rest)"
  using assms
proof (induction s arbitrary: prev)
  case Nil
  then show ?case by (simp add: rmatch_shortLine)
next
  case (Cons c cs)
  have r: "replaceFrom reShortLine [] prev (c # cs) = c # replaceFrom reShortLine [] (Some c) cs"
    using Cons.prems by (simp add: rmatch_shortLine Let_def)
  show ?case
  proof (cases "notLineTerminator c")
    case True
    then have "\<not> atBol (Some c)" by (simp add: atBol_def notLineTerminator_def)
    from Cons.IH[OF this] True r show ?thesis by simp
  next
    case False
    with r show ?thesis by simp
  qed
qed

lemma replace_at_start:
  assumes "atBol prev"
  shows "replaceFrom reShortLine [] prev s =
           blankShort (takeWhile notLineTerminator s)
           @ (case dropWhile notLineTerminator s of [] \<Rightarrow> []
              | t # rest \<Rightarrow> t # replaceFrom reShortLine [] (Some t) rest)"
proof (cases s)
  case Nil
  then show ?thesis by (simp add: rmatch_shortLine blankShort_def)
next
  case (Cons c cs)
  define n where "n = length (takeWhile notLineTerminator s)"
  show ?thesis
  proof (cases "1 \<le> n \<and> n \<le> 15")
    case True
    then obtain n' where n': "n = Suc n'" by (cases n) auto
    have m: "rmatch reShortLine prev (c # cs) = Some [0, n, 0]"
      using True assms unfolding rmatch_shortLine Cons[symmetric] n_def by (simp add: Let_def)
    have "replaceFrom reShortLine [] prev s
            = replaceFrom reShortLine [] (prevAfter prev s n) (drop n s)"
      unfolding Cons using m n' by simp
    moreover have d: "drop n s = dropWhile notLineTerminator s"
      unfolding n_def by (simp add: dropWhile_eq_drop)
    moreover have "\<not> atBol (prevAfter prev s n)"
    proof -
      have tk: "take n s = takeWhile notLineTerminator s"
        unfolding n_def by (rule takeWhile_eq_take[symmetric])
      have ne: "takeWhile notLineTerminator s \<noteq> []" using True n_def by auto
      then obtain x xs where rv: "rev (takeWhile notLineTerminator s) = x # xs"
        by (cases "rev (takeWhile notLineTerminator s)") auto
      then have "x \<in> set (takeWhile notLineTerminator s)"
        by (metis list.set_intros(1) set_rev)
      then have "notLineTerminator x" by (auto dest: set_takeWhileD)
      then show ?thesis
        by (simp add: prevAfter_def tk rv atBol_def notLineTerminator_def)
    qed
    ultimately have "replaceFrom reShortLine [] prev s
        = takeWhile notLineTerminator (dropWhile notLineTerminator s)
          @ (case dropWhile notLineTerminator (dropWhile notLineTerminator s) of [] \<Rightarrow> []
             | t # rest \<Rightarrow> t # replaceFrom reShortLine [] (Some t) rest)"
      using replace_inside[of "prevAfter prev s n" "dropWhile notLineTerminator s"] by simp
    moreover have "takeWhile notLineTerminator (dropWhile notLineTerminator s) = []"
      by (rule takeWhile_dropWhile_Nil)
    moreover have "dropWhile notLineTerminator (dropWhile notLineTerminator s)
                     = dropWhile notLineTerminator s"
      by simp
    ultimately show ?thesis using True by (simp add: blankShort_def n_def)
  next
    case False
    have m: "rmatch reShortLine prev (c # cs) = None"
      using False unfolding rmatch_shortLine Cons[symmetric] n_def by (simp add: Let_def)
    then have r: "replaceFrom reShortLine [] prev s = c # replaceFrom reShortLine [] (Some c) cs"
      unfolding Cons by simp
    show ?thesis
    proof (cases "notLineTerminator c")
      case nl: False
      with r Cons show ?thesis by (simp add: blankShort_def)
    next
      case True
      then have "\<not> atBol (Some c)" by (simp add: atBol_def notLineTerminator_def)
      from replace_inside[OF this, of cs] r True Cons False
      show ?thesis by (simp add: blankShort_def n_def)
    qed
  qed
qed


lemma linesOf_plain: "(\<And>c. c \<in> set l \<Longrightarrow> \<not> isLineTerminator c) \<Longrightarrow> linesOf l = [l]"
  by (induction l) auto

lemma linesOf_append_term:
  assumes "\<And>c. c \<in> set l \<Longrightarrow> \<not> isLineTerminator c" "isLineTerminator t"
  shows "linesOf (l @ t # rest) = l # linesOf rest"
  using assms by (induction l) auto

lemma blankShort_plain:
  "(\<And>c. c \<in> set l \<Longrightarrow> \<not> isLineTerminator c) \<Longrightarrow> c \<in> set (blankShort l) \<Longrightarrow> \<not> isLineTerminator c"
  by (auto simp: blankShort_def split: if_splits)

lemma takeWhile_plain: "c \<in> set (takeWhile notLineTerminator s) \<Longrightarrow> \<not> isLineTerminator c"
  by (auto dest: set_takeWhileD simp: notLineTerminator_def)

lemma filter_plain: "(\<And>c. c \<in> set l \<Longrightarrow> \<not> isLineTerminator c) \<Longrightarrow> filter isLineTerminator l = []"
  by (induction l) auto

lemma replace_lines:
  "atBol prev \<Longrightarrow>
   linesOf (replaceFrom reShortLine [] prev s) = map blankShort (linesOf s)
   \<and> filter isLineTerminator (replaceFrom reShortLine [] prev s) = filter isLineTerminator s"
proof (induction s arbitrary: prev rule: length_induct)
  case (1 s)
  define l where "l = takeWhile notLineTerminator s"
  define d where "d = dropWhile notLineTerminator s"
  have s: "s = l @ d" by (simp add: l_def d_def)
  have pl: "\<And>c. c \<in> set l \<Longrightarrow> \<not> isLineTerminator c"
    unfolding l_def by (rule takeWhile_plain)
  have pb: "\<And>c. c \<in> set (blankShort l) \<Longrightarrow> \<not> isLineTerminator c"
    using blankShort_plain[of l] pl by blast
  have r: "replaceFrom reShortLine [] prev s =
             blankShort l @ (case d of [] \<Rightarrow> []
                | t # rest \<Rightarrow> t # replaceFrom reShortLine [] (Some t) rest)"
    unfolding l_def d_def by (rule replace_at_start[OF 1(2)])
  show ?case
  proof (cases d)
    case Nil
    have "linesOf (blankShort l) = [blankShort l]" by (rule linesOf_plain) (rule pb)
    moreover have "linesOf l = [l]" by (rule linesOf_plain) (rule pl)
    moreover have "filter isLineTerminator (blankShort l) = []" by (rule filter_plain) (rule pb)
    moreover have "filter isLineTerminator l = []" by (rule filter_plain) (rule pl)
    ultimately show ?thesis unfolding r unfolding s Nil by simp
  next
    case (Cons t rest)
    have dw: "dropWhile notLineTerminator s = t # rest" using Cons d_def by simp
    then have "dropWhile notLineTerminator s \<noteq> []" by simp
    then have "\<not> notLineTerminator (hd (dropWhile notLineTerminator s))" by (rule hd_dropWhile)
    then have t: "isLineTerminator t" unfolding dw by (simp add: notLineTerminator_def)
    then have b: "atBol (Some t)" by (simp add: atBol_def)
    have "length rest < length s" unfolding s Cons by simp
    with 1(1) b have ih:
      "linesOf (replaceFrom reShortLine [] (Some t) rest) = map blankShort (linesOf rest)"
      "filter isLineTerminator (replaceFrom reShortLine [] (Some t) rest)
         = filter isLineTerminator rest"
      by blast+
    have "linesOf (blankShort l @ t # replaceFrom reShortLine [] (Some t) rest)
            = blankShort l # linesOf (replaceFrom reShortLine [] (Some t) rest)"
      by (rule linesOf_append_term[OF pb t])
    moreover have "linesOf (l @ t # rest) = l # linesOf rest"
      by (rule linesOf_append_term[OF pl t])
    moreover have "filter isLineTerminator (blankShort l) = []" by (rule filter_plain) (rule pb)
    moreover have "filter isLineTerminator l = []" by (rule filter_plain) (rule pl)
    ultimately show ?thesis unfolding r unfolding s Cons using ih t by simp
  qed
qed

text \<open>
  C9, as the code has it. The last replacement of Light summarization,
  \<open>replace(/^.{1,15}$/gm, '')\<close>, empties exactly the lines of 1 to 15 characters,
  counted untrimmed, keeps every line terminator and leaves every other line as it is;
  it runs after the blank-line collapse and the optional stripping of speaker prefixes,
  and the whole result is trimmed.
\<close>

theorem short_lines_blanked:
  "linesOf (replaceAll reShortLine [] s) = map blankShort (linesOf s)
   \<and> filter isLineTerminator (replaceAll reShortLine [] s) = filter isLineTerminator s
   \<and> lightSummarize content v =
       trim (replaceAll reShortLine []
              (if falsy v then replaceAll reSpeaker [] (replaceAll reBlankLines [NL, NL] content)
               else replaceAll reBlankLines [NL, NL] content))"
proof -
  have "atBol None" by (simp add: atBol_def)
  from replace_lines[OF this, of s] show ?thesis
    by (simp add: replaceAll_def lightSummarize_def Let_def)
qed

text \<open>
  C9 as stated fails in both directions: a line of exactly 15 characters, whose trimmed
  length is not under 15, is dropped; and a line of 16 characters whose trimmed length is
  2 stays.
\<close>

theorem short_line_rule_counterexample:
  "length (trim ''Budget approved'') = 15
   \<and> lightSummarize (''Budget approved'' @ [NL] @ ''The team will meet again on Friday.'')
        (JBool True)
      = ''The team will meet again on Friday.''
   \<and> length (trim ''ok              '') = 2
   \<and> lightSummarize (''The team will meet again on Friday.'' @ [NL] @ ''ok              ''
                      @ [NL] @ ''We close the books next week.'') (JBool True)
      = ''The team will meet again on Friday.'' @ [NL] @ ''ok              ''
        @ [NL] @ ''We close the books next week.''"
  by code_simp

end
